theory Spec2Isabelle
  imports Complex_Main
begin

section \<open>JavaScript strings and numbers\<close>

text \<open>
  The content script works on JavaScript strings. A string is modelled as a \<^typ>\<open>string\<close>,
  one \<^typ>\<open>char\<close> per UTF-16 code unit, for text whose code units are below 256; on such
  text \<open>length\<close> is JavaScript's \<open>.length\<close>, and the functions below are the builtins
  the script calls: \<open>trim\<close>, \<open>toLowerCase\<close>, \<open>includes\<close>, \<open>split\<close>, array indexing,
  \<open>parseInt\<close> and \<open>Number.prototype.toString\<close>. Numbers are mathematical integers, which
  JavaScript's are up to \<open>2^53\<close>.
\<close>

definition isWhiteSpace :: "char \<Rightarrow> bool" where
  "isWhiteSpace c =
     (c \<in> set [CHR 0x09, CHR 0x0A, CHR 0x0B, CHR 0x0C, CHR 0x0D, CHR 0x20, CHR 0xA0])"

definition trim :: "string \<Rightarrow> string" where
  "trim s = rev (dropWhile isWhiteSpace (rev (dropWhile isWhiteSpace s)))"

definition toLowerChar :: "char \<Rightarrow> char" where
  "toLowerChar c =
     (let n = (of_char c :: nat) in
      if (65 \<le> n \<and> n \<le> 90) \<or> (192 \<le> n \<and> n \<le> 222 \<and> n \<noteq> 215)
      then char_of (n + 32) else c)"

definition toLowerCase :: "string \<Rightarrow> string" where
  "toLowerCase s = map toLowerChar s"

fun startsWith :: "string \<Rightarrow> string \<Rightarrow> bool" where
  "startsWith s [] = True"
| "startsWith [] (p # ps) = False"
| "startsWith (c # cs) (p # ps) = (c = p \<and> startsWith cs ps)"

text \<open>\<open>s.includes(pat)\<close>: \<open>pat\<close> occurs somewhere in \<open>s\<close>.\<close>

fun str_includes :: "string \<Rightarrow> string \<Rightarrow> bool" where
  "str_includes [] pat = (pat = [])"
| "str_includes (c # cs) pat = (startsWith (c # cs) pat \<or> str_includes cs pat)"

text \<open>
  \<open>s.split(sep)\<close> cuts \<open>s\<close> at the occurrences of \<open>sep\<close>, found from the left without
  overlap; \<open>acc\<close> holds the piece being read, reversed.
\<close>

fun split_from :: "string \<Rightarrow> string \<Rightarrow> string \<Rightarrow> string list" where
  "split_from sep acc [] = [rev acc]"
| "split_from sep acc (c # cs) =
     (if startsWith (c # cs) sep
      then rev acc # split_from sep [] (drop (length sep - 1) cs)
      else split_from sep (c # acc) cs)"

definition split :: "string \<Rightarrow> string \<Rightarrow> string list" where
  "split s sep = (if sep = [] then map (\<lambda>c. [c]) s else split_from sep [] s)"

text \<open>\<open>xs[i]\<close>: \<open>undefined\<close> (here \<open>None\<close>) beyond the end of the array.\<close>

definition at_index :: "'a list \<Rightarrow> nat \<Rightarrow> 'a option" where
  "at_index xs i = (if i < length xs then Some (xs ! i) else None)"

definition digitValue :: "char \<Rightarrow> nat option" where
  "digitValue c =
     (let n = (of_char c :: nat) in
      if 48 \<le> n \<and> n \<le> 57 then Some (n - 48)
      else if 97 \<le> n \<and> n \<le> 122 then Some (n - 87)
      else if 65 \<le> n \<and> n \<le> 90 then Some (n - 55)
      else None)"

fun radixDigits :: "nat \<Rightarrow> string \<Rightarrow> nat list" where
  "radixDigits R [] = []"
| "radixDigits R (c # cs) =
     (case digitValue c of
        None \<Rightarrow> []
      | Some d \<Rightarrow> if d < R then d # radixDigits R cs else [])"

text \<open>
  \<open>parseInt(s)\<close> with no radix: leading white space is skipped, a sign is read, a
  \<open>0x\<close> prefix selects radix 16, and the longest run of digits is the value; no digit at
  all gives \<open>NaN\<close>, here \<open>None\<close>.
\<close>

definition parseInt :: "string \<Rightarrow> int option" where
  "parseInt inputString =
     (let S = dropWhile isWhiteSpace inputString;
          sign = (if startsWith S ''-'' then - 1 else 1 :: int);
          S1 = (if startsWith S ''+'' \<or> startsWith S ''-'' then drop 1 S else S);
          hex = (startsWith S1 ''0x'' \<or> startsWith S1 ''0X'');
          R = (if hex then 16 else 10 :: nat);
          S2 = (if hex then drop 2 S1 else S1);
          Z = radixDigits R S2
      in if Z = [] then None
         else Some (sign * int (foldl (\<lambda>a d. a * R + d) 0 Z)))"

text \<open>\<open>v || 0\<close> on a number: \<open>NaN\<close> and zero are falsy.\<close>

definition or_zero :: "int option \<Rightarrow> int" where
  "or_zero v = (case v of None \<Rightarrow> 0 | Some n \<Rightarrow> if n = 0 then 0 else n)"

text \<open>\<open>n.toString()\<close> of a count: its decimal digits.\<close>

fun toString :: "nat \<Rightarrow> string" where
  "toString n =
     (if n < 10 then [char_of (48 + n)]
      else toString (n div 10) @ [char_of (48 + n mod 10)])"

declare toString.simps [simp del]

section \<open>The page, the network and the effects of the script\<close>

text \<open>
  The script reaches the page through CSS selectors; the model takes the selectors' results
  as the page. A \<open>document\<close> gives what \<open>querySelector('main')\<close> and
  \<open>querySelector('aside')\<close> find: the bookmark cards that the card selector matches inside
  the main region, and the anchors that \<open>a[href*="/lists/"]\<close> matches inside the sidebar.
\<close>

type_synonym element_ref = nat

text \<open>An \<open>li\<close> element with the result of the badge selector inside it.\<close>

datatype li = Li (badgeQuery: "element_ref option")

record anchor =
  href :: string
  linkText :: string
  closest_li :: "li option"

text \<open>
  A bookmark card: its \<open>textContent\<close>, whether \<open>querySelector('a[href^="http"]')\<close> finds
  an element, its \<open>className\<close>, whether it has the attribute \<open>data-archived\<close>, and the
  opacity and display of its computed style (read on the live page only).
\<close>

record card =
  cardText :: string
  externalLink :: bool
  className :: string
  dataArchived :: bool
  opacity :: real
  display :: string

record document =
  main :: "card list option"
  aside :: "anchor list option"

record window =
  liveDocument :: document
  pathname :: string

text \<open>
  What a run can change or cause outside the counter object: the text of the badge
  elements, and, kept as logs, the writes to badges, the requests sent and the number of
  queries for the sidebar.
\<close>

record world =
  textContent :: "element_ref \<Rightarrow> string"
  domWrites :: "(element_ref \<times> string) list"
  requests :: "string list"
  sidebarQueries :: nat

text \<open>
  The network as the script meets it. A request is answered with response headers after
  some milliseconds, fails after some milliseconds, or stays unanswered; the body of a
  response arrives (and \<open>DOMParser\<close> turns it into a document), fails, or stalls.
\<close>

datatype body = BodyArrives document | BodyFails | BodyStalls

record response =
  status :: nat
  responseBody :: body

datatype exchange = Responds nat response | Fails nat | Unanswered

type_synonym network = "string \<Rightarrow> exchange"

datatype js_error = AbortError | TypeError

text \<open>How an awaited call ends: with a value, with an exception, or never.\<close>

datatype 'a completion = Returns 'a | Throws js_error | Pending

datatype promise_state = Fulfilled | Rejected js_error | Unsettled

definition ok :: "response \<Rightarrow> bool" where
  "ok r = (200 \<le> status r \<and> status r \<le> 299)"

text \<open>
  \<open>fetch(url, {signal})\<close> with \<open>setTimeout(() => controller.abort(), timeout)\<close>
  running: the promise settles with what the network does before the timer fires, and
  rejects with an \<open>AbortError\<close> otherwise.
\<close>

definition fetch :: "network \<Rightarrow> string \<Rightarrow> nat \<Rightarrow> response completion" where
  "fetch net url timeout =
     (case net url of
        Responds t r \<Rightarrow> if t < timeout then Returns r else Throws AbortError
      | Fails t \<Rightarrow> if t < timeout then Throws TypeError else Throws AbortError
      | Unanswered \<Rightarrow> Throws AbortError)"

section \<open>The counter\<close>

record counter =
  debugMode :: bool
  listCounts :: "string \<rightharpoonup> nat"
  lastUpdateTime :: int
  updateCooldown :: int

definition constructor :: counter where
  "constructor =
     \<lparr>debugMode = True, listCounts = Map.empty, lastUpdateTime = 0, updateCooldown = 10000\<rparr>"

subsection \<open>countBookmarksInDocument and countVisibleBookmarks\<close>

text \<open>The callback of \<open>bookmarkCards.forEach\<close> in \<open>countBookmarksInDocument\<close>.\<close>

definition documentCard :: "card \<Rightarrow> nat \<Rightarrow> nat" where
  "documentCard bookmarkCard validBookmarks =
     (let text = trim (cardText bookmarkCard);
          hasExternalLink = externalLink bookmarkCard
      in if hasExternalLink \<and> length text > 10 \<and> length text < 200
         then
           (let textLower = toLowerCase text;
                classLower = toLowerCase (className bookmarkCard);
                isArchived = (str_includes textLower ''archived'' \<or>
                              str_includes classLower ''archived'' \<or>
                              dataArchived bookmarkCard)
            in if \<not> isArchived then validBookmarks + 1 else validBookmarks)
         else validBookmarks)"

definition countBookmarksInDocument :: "document \<Rightarrow> nat" where
  "countBookmarksInDocument doc =
     (case main doc of
        None \<Rightarrow> 0
      | Some bookmarkCards \<Rightarrow> foldl (\<lambda>validBookmarks c. documentCard c validBookmarks) 0 bookmarkCards)"

text \<open>The callback of \<open>bookmarkCards.forEach\<close> in \<open>countVisibleBookmarks\<close>.\<close>

definition visibleCard :: "card \<Rightarrow> nat \<Rightarrow> nat" where
  "visibleCard bookmarkCard validBookmarks =
     (let text = trim (cardText bookmarkCard);
          hasExternalLink = externalLink bookmarkCard
      in if hasExternalLink \<and> length text > 10 \<and> length text < 200
         then
           (let textLower = toLowerCase text;
                classLower = toLowerCase (className bookmarkCard);
                isArchived = (str_includes textLower ''archived'' \<or>
                              str_includes classLower ''archived'' \<or>
                              opacity bookmarkCard < 1 \<or>
                              display bookmarkCard = ''none'' \<or>
                              dataArchived bookmarkCard)
            in if \<not> isArchived then validBookmarks + 1 else validBookmarks)
         else validBookmarks)"

text \<open>\<open>countVisibleBookmarks\<close> counts on the live document; \<open>null\<close> is \<open>None\<close>.\<close>

definition countVisibleBookmarks :: "window \<Rightarrow> nat option" where
  "countVisibleBookmarks win =
     (case main (liveDocument win) of
        None \<Rightarrow> None
      | Some bookmarkCards \<Rightarrow>
          Some (foldl (\<lambda>validBookmarks c. visibleCard c validBookmarks) 0 bookmarkCards))"

subsection \<open>fetchListBookmarkCount and getUnarchivedCountForList\<close>

text \<open>The \<open>try\<close> block of \<open>fetchListBookmarkCount\<close>, and the function with its \<open>catch\<close>.\<close>

definition fetchListBookmarkCount_try :: "network \<Rightarrow> string \<Rightarrow> nat option completion" where
  "fetchListBookmarkCount_try net listId =
     (case fetch net (''/dashboard/lists/'' @ listId) 5000 of
        Throws e \<Rightarrow> Throws e
      | Pending \<Rightarrow> Pending
      | Returns response \<Rightarrow>
          if \<not> ok response then Returns None
          else
            (case responseBody response of
               BodyFails \<Rightarrow> Throws TypeError
             | BodyStalls \<Rightarrow> Pending
             | BodyArrives doc \<Rightarrow> Returns (Some (countBookmarksInDocument doc))))"

definition fetchListBookmarkCount ::
  "network \<Rightarrow> string \<Rightarrow> world \<Rightarrow> nat option completion \<times> world" where
  "fetchListBookmarkCount net listId w =
     (let w1 = w\<lparr>requests := requests w @ [''/dashboard/lists/'' @ listId]\<rparr>
      in case fetchListBookmarkCount_try net listId of
           Throws error \<Rightarrow> (Returns None, w1)
         | result \<Rightarrow> (result, w1))"

definition getUnarchivedCountForList ::
  "window \<Rightarrow> network \<Rightarrow> string \<Rightarrow> world \<Rightarrow> nat option completion \<times> world" where
  "getUnarchivedCountForList win net listId w =
     (let currentListId = at_index (split (pathname win) ''/lists/'') 1
      in if currentListId = Some listId then (Returns (countVisibleBookmarks win), w)
         else fetchListBookmarkCount net listId w)"

record list_info =
  listId :: string
  name :: string
  link :: anchor
  countBadge :: element_ref
  currentCount :: int

subsection \<open>findAllListLinks\<close>

text \<open>The callback of \<open>links.forEach\<close>: the descriptor pushed for one link, if any.\<close>

definition listLinkOf :: "(element_ref \<Rightarrow> string) \<Rightarrow> anchor \<Rightarrow> list_info option" where
  "listLinkOf txt a =
     (let listId = at_index (split (href a) ''/lists/'') 1;
          text = trim (linkText a);
          listItem = closest_li a;
          countBadge = (case listItem of Some item \<Rightarrow> badgeQuery item | None \<Rightarrow> None)
      in case (listId, countBadge) of
           (Some lid, Some badge) \<Rightarrow>
             if lid \<noteq> [] then
               Some \<lparr>listId = lid, name = text, link = a, countBadge = badge,
                     currentCount = or_zero (parseInt (trim (txt badge)))\<rparr>
             else None
         | _ \<Rightarrow> None)"

definition findAllListLinks :: "document \<Rightarrow> (element_ref \<Rightarrow> string) \<Rightarrow> list_info list" where
  "findAllListLinks doc txt =
     (case aside doc of
        None \<Rightarrow> []
      | Some links \<Rightarrow> List.map_filter (listLinkOf txt) links)"

subsection \<open>updateListCount\<close>

text \<open>
  \<open>updateListCount\<close> is an async function with one \<open>await\<close>. Up to the \<open>await\<close> it calls
  \<open>getUnarchivedCountForList\<close>; once the awaited promise has settled it resumes, writes
  the badge or not, and its own promise is fulfilled. An awaited promise that never
  settles leaves it suspended.
\<close>

definition updateListCount_resume ::
  "list_info \<Rightarrow> nat option completion \<Rightarrow> world \<Rightarrow> promise_state \<times> world" where
  "updateListCount_resume listInfo awaited w =
     (case awaited of
        Returns unarchivedCount \<Rightarrow>
          (case unarchivedCount of
             Some n \<Rightarrow>
               if int n \<noteq> currentCount listInfo
               then (Fulfilled,
                     w\<lparr>textContent := (textContent w)(countBadge listInfo := toString n),
                       domWrites := domWrites w @ [(countBadge listInfo, toString n)]\<rparr>)
               else (Fulfilled, w)
           | None \<Rightarrow> (Fulfilled, w))
      | Throws error \<Rightarrow> (Fulfilled, w)
      | Pending \<Rightarrow> (Unsettled, w))"

definition updateListCount ::
  "window \<Rightarrow> network \<Rightarrow> list_info \<Rightarrow> world \<Rightarrow> promise_state \<times> world" where
  "updateListCount win net listInfo w =
     (let (awaited, w1) = getUnarchivedCountForList win net (listId listInfo) w
      in updateListCount_resume listInfo awaited w1)"

subsection \<open>updateAllListCounts\<close>

text \<open>
  \<open>listLinks.map(listInfo => this.updateListCount(listInfo))\<close> runs every call up to its
  \<open>await\<close>, in the order of the list: the live count is taken and the requests are sent
  before any badge is written.
\<close>

fun startUpdates ::
  "window \<Rightarrow> network \<Rightarrow> list_info list \<Rightarrow> world \<Rightarrow> nat option completion list \<times> world" where
  "startUpdates win net [] w = ([], w)"
| "startUpdates win net (listInfo # rest) w =
     (let (awaited, w1) = getUnarchivedCountForList win net (listId listInfo) w;
          (others, w2) = startUpdates win net rest w1
      in (awaited # others, w2))"

text \<open>
  The calls then resume one at a time, in the order in which their awaited promises
  settle: \<open>order\<close> lists the positions of the descriptors in that order.
\<close>

definition is_completion_order :: "nat \<Rightarrow> nat list \<Rightarrow> bool" where
  "is_completion_order n order = (sort order = [0..<n])"

definition resumeAt ::
  "list_info list \<Rightarrow> nat option completion list \<Rightarrow> world \<Rightarrow> nat \<Rightarrow> world" where
  "resumeAt listLinks awaited w i =
     (if i < length listLinks \<and> i < length awaited
      then snd (updateListCount_resume (listLinks ! i) (awaited ! i) w)
      else w)"

definition settleUpdates ::
  "list_info list \<Rightarrow> nat option completion list \<Rightarrow> nat list \<Rightarrow> world \<Rightarrow> world" where
  "settleUpdates listLinks awaited order w = foldl (resumeAt listLinks awaited) w order"

text \<open>
  One run at clock reading \<open>now\<close> (\<open>Date.now()\<close>, milliseconds since the epoch). The
  counter's fields change only before the first \<open>await\<close>, so a run is modelled as one
  step on the counter and the world. Nothing in the body of the run's \<open>try\<close> throws in
  this model (the failures of a fetch are caught in \<open>fetchListBookmarkCount\<close>), and what
  follows \<open>Promise.allSettled\<close> only writes to the console, which is not modelled.
\<close>

definition updateAllListCounts ::
  "counter \<Rightarrow> int \<Rightarrow> window \<Rightarrow> network \<Rightarrow> nat list \<Rightarrow> world \<Rightarrow> counter \<times> world" where
  "updateAllListCounts this now win net order w =
     (if now - lastUpdateTime this < updateCooldown this then (this, w)
      else
        (let w1 = w\<lparr>sidebarQueries := sidebarQueries w + 1\<rparr>
         in case aside (liveDocument win) of
              None \<Rightarrow> (this, w1)
            | Some sidebar \<Rightarrow>
                (let listLinks = findAllListLinks (liveDocument win) (textContent w1);
                     w2 = w1\<lparr>sidebarQueries := sidebarQueries w1 + 1\<rparr>
                 in if length listLinks = 0 then (this, w2)
                    else
                      (let this' = this\<lparr>lastUpdateTime := now\<rparr>;
                           (awaited, w3) = startUpdates win net listLinks w2
                       in (this', settleUpdates listLinks awaited order w3)))))"

text \<open>
  The life of the content script: the constructor, then the runs that the timers, the
  load events, the mutation observer and the popup's message start, each at its clock
  reading, on the page and network of that moment. Every trigger calls
  \<open>updateAllListCounts\<close> and nothing else touches the counter. A run is taken to have
  settled when the next one starts; the counter does not depend on that, since its fields
  are set before the first \<open>await\<close>.
\<close>

record trigger =
  firedAt :: int
  seenWindow :: window
  seenNetwork :: network
  settleOrder :: "nat list"

fun runs :: "counter \<Rightarrow> world \<Rightarrow> trigger list \<Rightarrow> counter \<times> world" where
  "runs this w [] = (this, w)"
| "runs this w (t # ts) =
     (let (this', w') =
            updateAllListCounts this (firedAt t) (seenWindow t) (seenNetwork t) (settleOrder t) w
      in runs this' w' ts)"

subsection \<open>Notions used in the statements\<close>

text \<open>
  The write that a resumed \<open>updateListCount\<close> performs, as a list of at most one pair
  of a badge and its new text; the text of the elements after a sequence of writes; and
  the write of the descriptor at position \<open>i\<close> of a run.
\<close>

definition writeOf :: "list_info \<Rightarrow> nat option completion \<Rightarrow> (element_ref \<times> string) list" where
  "writeOf listInfo awaited =
     (case awaited of
        Returns (Some n) \<Rightarrow>
          if int n \<noteq> currentCount listInfo then [(countBadge listInfo, toString n)] else []
      | _ \<Rightarrow> [])"

definition applyWrites :: "(element_ref \<Rightarrow> string) \<Rightarrow> (element_ref \<times> string) list \<Rightarrow> element_ref \<Rightarrow> string" where
  "applyWrites txt ws = foldl (\<lambda>f (b, t). f(b := t)) txt ws"

definition writesAt :: "list_info list \<Rightarrow> nat option completion list \<Rightarrow> nat \<Rightarrow> (element_ref \<times> string) list" where
  "writesAt links awaited i =
     (if i < length links \<and> i < length awaited then writeOf (links ! i) (awaited ! i) else [])"

subsection \<open>Spec-side notions and example pages\<close>

text \<open>
  The spec calls the list id "the trailing path segment of the link's destination": the
  text after the last \<open>/\<close> of the href.
\<close>

definition trailingPathSegment :: "string \<Rightarrow> string" where
  "trailingPathSegment s = rev (takeWhile (\<lambda>c. c \<noteq> CHR ''/'') (rev s))"

text \<open>
  The spec's failures of a fetch: a time-out (the list's page is not there within 5000 ms:
  the response does not arrive in that time, or its body never arrives), a network error
  (the request fails, or reading the body does) and a status that is not a success.
\<close>

definition fetchFailed :: "exchange \<Rightarrow> bool" where
  "fetchFailed x =
     (case x of
        Responds t r \<Rightarrow>
          5000 \<le> t \<or> responseBody r = BodyStalls \<or> responseBody r = BodyFails \<or> \<not> ok r
      | Fails t \<Rightarrow> True
      | Unanswered \<Rightarrow> True)"

text \<open>Cards, pages and networks on which the theorems below are exercised.\<close>

definition shortCard :: card where
  "shortCard =
     \<lparr>cardText = '' 0123456789 '', externalLink = True, className = ''rounded-lg border'',
      dataArchived = False, opacity = 1, display = ''flex''\<rparr>"

definition archivedCard :: card where
  "archivedCard =
     \<lparr>cardText = ''Old news - Archived'', externalLink = True, className = ''rounded-lg border'',
      dataArchived = False, opacity = 1, display = ''flex''\<rparr>"

definition goodCard :: card where
  "goodCard =
     \<lparr>cardText = ''A fine article about cats'', externalLink = True,
      className = ''rounded-lg border'', dataArchived = False, opacity = 1, display = ''flex''\<rparr>"

definition readingLink :: anchor where
  "readingLink =
     \<lparr>href = ''/dashboard/lists/abc123'', linkText = '' Reading '', closest_li = Some (Li (Some 1))\<rparr>"

definition laterLink :: anchor where
  "laterLink =
     \<lparr>href = ''/dashboard/lists/xyz789'', linkText = ''Later'', closest_li = Some (Li (Some 2))\<rparr>"

definition brokenLink :: anchor where
  "brokenLink =
     \<lparr>href = ''/dashboard/lists/bad000'', linkText = ''Broken'', closest_li = Some (Li (Some 3))\<rparr>"

definition examplePage :: window where
  "examplePage =
     \<lparr>liveDocument = \<lparr>main = Some [goodCard, archivedCard, shortCard],
                      aside = Some [readingLink, laterLink, brokenLink]\<rparr>,
      pathname = ''/dashboard/lists/abc123''\<rparr>"

definition exampleWorld :: world where
  "exampleWorld =
     \<lparr>textContent = (\<lambda>_. [])(1 := ''12'', 2 := ''8'', 3 := ''4''),
      domWrites = [], requests = [], sidebarQueries = 0\<rparr>"

definition laterDocument :: document where
  "laterDocument = \<lparr>main = Some [goodCard, archivedCard, goodCard], aside = None\<rparr>"

definition exampleNetwork :: network where
  "exampleNetwork =
     (\<lambda>_. Unanswered)
       (''/dashboard/lists/xyz789'' :=
          Responds 120 \<lparr>status = 200, responseBody = BodyArrives laterDocument\<rparr>)"

text \<open>
  A network on which the page of \<open>xyz789\<close> is answered after 100 ms with status 200 and
  a body that never arrives.
\<close>

definition stalledNetwork :: network where
  "stalledNetwork =
     (\<lambda>_. Unanswered)
       (''/dashboard/lists/xyz789'' := Responds 100 \<lparr>status = 200, responseBody = BodyStalls\<rparr>)"

definition readingInfo :: list_info where
  "readingInfo =
     \<lparr>listId = ''abc123'', name = ''Reading'', link = readingLink, countBadge = 1, currentCount = 12\<rparr>"

definition laterInfo :: list_info where
  "laterInfo =
     \<lparr>listId = ''xyz789'', name = ''Later'', link = laterLink, countBadge = 2, currentCount = 8\<rparr>"

definition brokenInfo :: list_info where
  "brokenInfo =
     \<lparr>listId = ''bad000'', name = ''Broken'', link = brokenLink, countBadge = 3, currentCount = 4\<rparr>"

section \<open>Facts about the string functions\<close>

lemma startsWith_iff: "startsWith s p \<longleftrightarrow> (\<exists>r. s = p @ r)"
  by (induction s p rule: startsWith.induct) auto

lemma str_includes_iff: "str_includes s p \<longleftrightarrow> (\<exists>a b. s = a @ p @ b)"
proof (induction s)
  case Nil
  then show ?case by auto
next
  case (Cons c cs)
  have "(\<exists>a b. c # cs = a @ p @ b) \<longleftrightarrow> (\<exists>r. c # cs = p @ r) \<or> (\<exists>a b. cs = a @ p @ b)"
  proof
    assume "\<exists>a b. c # cs = a @ p @ b"
    then obtain a b where ab: "c # cs = a @ p @ b" by blast
    show "(\<exists>r. c # cs = p @ r) \<or> (\<exists>a b. cs = a @ p @ b)"
    proof (cases a)
      case Nil
      with ab show ?thesis by auto
    next
      case (Cons x a')
      with ab have "cs = a' @ p @ b" by simp
      then show ?thesis by blast
    qed
  next
    assume "(\<exists>r. c # cs = p @ r) \<or> (\<exists>a b. cs = a @ p @ b)"
    then show "\<exists>a b. c # cs = a @ p @ b"
    proof
      assume "\<exists>r. c # cs = p @ r"
      then obtain r where "c # cs = [] @ p @ r" by auto
      then show ?thesis by blast
    next
      assume "\<exists>a b. cs = a @ p @ b"
      then obtain a b where "cs = a @ p @ b" by blast
      then have "c # cs = (c # a) @ p @ b" by simp
      then show ?thesis by blast
    qed
  qed
  with Cons show ?case by (simp add: startsWith_iff)
qed

lemma str_includes_rev: "str_includes (rev s) (rev p) = str_includes s p"
proof -
  have "(\<exists>a b. rev s = a @ rev p @ b) \<longleftrightarrow> (\<exists>a b. s = a @ p @ b)"
  proof
    assume "\<exists>a b. rev s = a @ rev p @ b"
    then obtain a b where "rev s = a @ rev p @ b" by blast
    then have "rev (rev s) = rev (a @ rev p @ b)" by simp
    then have "s = rev b @ p @ rev a" by simp
    then show "\<exists>a b. s = a @ p @ b" by blast
  next
    assume "\<exists>a b. s = a @ p @ b"
    then obtain a b where "s = a @ p @ b" by blast
    then have "rev s = rev b @ rev p @ rev a" by simp
    then show "\<exists>a b. rev s = a @ rev p @ b" by blast
  qed
  then show ?thesis by (simp add: str_includes_iff)
qed

text \<open>Dropping leading characters that the pattern does not start with loses no occurrence.\<close>

lemma str_includes_dropWhile:
  assumes "p \<noteq> []" and "\<not> W (hd p)"
  shows "str_includes (dropWhile W s) p = str_includes s p"
proof (induction s)
  case Nil
  then show ?case by simp
next
  case (Cons c cs)
  show ?case
  proof (cases "W c")
    case True
    from assms obtain x xs where p: "p = x # xs" and "\<not> W x" by (cases p) auto
    with True have "c \<noteq> x" by auto
    with p have "\<not> startsWith (c # cs) p" by simp
    with True Cons show ?thesis by simp
  next
    case False
    then show ?thesis by simp
  qed
qed

lemma str_includes_trim:
  assumes "p \<noteq> []" and "\<not> isWhiteSpace (hd p)" and "\<not> isWhiteSpace (last p)"
  shows "str_includes (trim s) p = str_includes s p"
proof -
  have "str_includes (trim s) p = str_includes (rev (trim s)) (rev p)"
    by (simp add: str_includes_rev)
  also have "\<dots> = str_includes (dropWhile isWhiteSpace (rev (dropWhile isWhiteSpace s))) (rev p)"
    by (simp add: trim_def)
  also have "\<dots> = str_includes (rev (dropWhile isWhiteSpace s)) (rev p)"
    using assms by (intro str_includes_dropWhile) (simp_all add: hd_rev)
  also have "\<dots> = str_includes (dropWhile isWhiteSpace s) p"
    by (simp add: str_includes_rev)
  also have "\<dots> = str_includes s p"
    using assms by (intro str_includes_dropWhile)
  finally show ?thesis .
qed

lemma char_eq_code: "(c = d) = ((of_char c :: nat) = of_char d)"
  by simp

lemma isWhiteSpace_code: "isWhiteSpace c = ((of_char c :: nat) \<in> {9, 10, 11, 12, 13, 32, 160})"
  unfolding isWhiteSpace_def
  by (simp add: char_eq_code [of c] del: of_char_eq_iff)

text \<open>Lower-casing neither makes nor removes white space, so it commutes with trimming.\<close>

lemma isWhiteSpace_toLowerChar: "isWhiteSpace (toLowerChar c) = isWhiteSpace c"
proof -
  have lt: "(of_char c :: nat) < 256" by simp
  show ?thesis
    unfolding isWhiteSpace_code toLowerChar_def Let_def
    using lt by (auto simp: of_char_of)
qed

lemma toLowerCase_trim: "toLowerCase (trim s) = trim (toLowerCase s)"
proof -
  have comp: "isWhiteSpace \<circ> toLowerChar = isWhiteSpace"
    by (rule ext) (simp add: isWhiteSpace_toLowerChar)
  show ?thesis
    by (simp add: toLowerCase_def trim_def rev_map dropWhile_map comp)
qed

lemma archived_in_trimmed_text:
  "str_includes (toLowerCase (trim s)) ''archived'' = str_includes (toLowerCase s) ''archived''"
  unfolding toLowerCase_trim
  by (rule str_includes_trim) (simp_all add: isWhiteSpace_def)

section \<open>Counting bookmarks\<close>

lemma documentCard_add: "documentCard c n = n + documentCard c 0"
  by (simp add: documentCard_def Let_def)

lemma visibleCard_add: "visibleCard c n = n + visibleCard c 0"
  by (simp add: visibleCard_def Let_def)

lemma foldl_documentCard:
  "foldl (\<lambda>n c. documentCard c n) n cs = n + (\<Sum>c\<leftarrow>cs. documentCard c 0)"
proof (induction cs arbitrary: n)
  case Nil
  then show ?case by simp
next
  case (Cons c cs)
  then show ?case using documentCard_add [of c n] by simp
qed

lemma foldl_visibleCard:
  "foldl (\<lambda>n c. visibleCard c n) n cs = n + (\<Sum>c\<leftarrow>cs. visibleCard c 0)"
proof (induction cs arbitrary: n)
  case Nil
  then show ?case by simp
next
  case (Cons c cs)
  then show ?case using visibleCard_add [of c n] by simp
qed

lemma countBookmarksInDocument_sum:
  "countBookmarksInDocument \<lparr>main = Some cs, aside = sb\<rparr> = (\<Sum>c\<leftarrow>cs. documentCard c 0)"
  by (simp add: countBookmarksInDocument_def foldl_documentCard)

lemma countVisibleBookmarks_sum:
  "countVisibleBookmarks \<lparr>liveDocument = \<lparr>main = Some cs, aside = sb\<rparr>, pathname = p\<rparr> =
     Some (\<Sum>c\<leftarrow>cs. visibleCard c 0)"
  by (simp add: countVisibleBookmarks_def foldl_visibleCard)

lemma visibleCard_documentCard:
  "visibleCard c 0 = (if opacity c < 1 \<or> display c = ''none'' then 0 else documentCard c 0)"
  by (simp add: visibleCard_def documentCard_def Let_def)

lemma sum_visibleCard_filter:
  "(\<Sum>c\<leftarrow>cs. visibleCard c 0) =
   (\<Sum>c\<leftarrow>filter (\<lambda>c. \<not> (opacity c < 1 \<or> display c = ''none'')) cs. documentCard c 0)"
  by (induction cs) (simp_all add: visibleCard_documentCard)

text \<open>
  Claim C3. An entry is counted only if it is a valid candidate: the card has an outbound
  link (the selector \<open>a[href^="http"]\<close> finds one) and its trimmed text is longer than 10
  and shorter than 200 characters. A card that fails this, whatever else holds of it, leaves
  the running count of both counting functions as it is, and the count of a page is the
  count of the page without that card.
\<close>

theorem invalid_candidate_never_counted:
  assumes "\<not> (externalLink c \<and> 10 < length (trim (cardText c)) \<and> length (trim (cardText c)) < 200)"
  shows "documentCard c n = n \<and> visibleCard c n = n \<and>
         countBookmarksInDocument \<lparr>main = Some (before @ c # after), aside = sb\<rparr> =
           countBookmarksInDocument \<lparr>main = Some (before @ after), aside = sb\<rparr> \<and>
         countVisibleBookmarks
             \<lparr>liveDocument = \<lparr>main = Some (before @ c # after), aside = sb\<rparr>, pathname = p\<rparr> =
           countVisibleBookmarks
             \<lparr>liveDocument = \<lparr>main = Some (before @ after), aside = sb\<rparr>, pathname = p\<rparr>"
proof -
  have d: "documentCard c k = k" for k
    using assms by (auto simp: documentCard_def Let_def)
  have v: "visibleCard c k = k" for k
    using assms by (auto simp: visibleCard_def Let_def)
  show ?thesis
    by (simp add: d v countBookmarksInDocument_sum countVisibleBookmarks_sum)
qed

text \<open>
  The card \<open>shortCard\<close> has an outbound link, no archive marker and a trimmed text of
  exactly 10 characters: it is not counted.
\<close>

theorem invalid_candidate_never_counted_witness:
  "\<not> (externalLink shortCard \<and> 10 < length (trim (cardText shortCard)) \<and>
        length (trim (cardText shortCard)) < 200) \<and>
   documentCard shortCard 3 = 3 \<and> visibleCard shortCard 3 = 3 \<and>
   countBookmarksInDocument \<lparr>main = Some ([] @ shortCard # []), aside = None\<rparr> =
     countBookmarksInDocument \<lparr>main = Some ([] @ []), aside = None\<rparr> \<and>
   countVisibleBookmarks
       \<lparr>liveDocument = \<lparr>main = Some ([] @ shortCard # []), aside = None\<rparr>, pathname = ''/''\<rparr> =
     countVisibleBookmarks
       \<lparr>liveDocument = \<lparr>main = Some ([] @ []), aside = None\<rparr>, pathname = ''/''\<rparr>"
proof -
  have h: "\<not> (externalLink shortCard \<and> 10 < length (trim (cardText shortCard)) \<and>
        length (trim (cardText shortCard)) < 200)"
    by (simp add: shortCard_def trim_def isWhiteSpace_def)
  from invalid_candidate_never_counted [OF h, of 3 "[]" "[]" None "''/''"] h show ?thesis
    by blast
qed

text \<open>
  Claim C4. A card whose lower-cased text contains \<open>archived\<close>, or whose lower-cased class
  name contains \<open>archived\<close>, or which has the attribute \<open>data-archived\<close>, is never counted,
  by either counting function and whether or not it is a valid candidate. The script looks
  for the word in the trimmed text; trimming loses no occurrence of it.
\<close>

theorem archived_entry_never_counted:
  assumes "str_includes (toLowerCase (cardText c)) ''archived'' \<or>
           str_includes (toLowerCase (className c)) ''archived'' \<or>
           dataArchived c"
  shows "documentCard c n = n \<and> visibleCard c n = n \<and>
         countBookmarksInDocument \<lparr>main = Some (before @ c # after), aside = sb\<rparr> =
           countBookmarksInDocument \<lparr>main = Some (before @ after), aside = sb\<rparr> \<and>
         countVisibleBookmarks
             \<lparr>liveDocument = \<lparr>main = Some (before @ c # after), aside = sb\<rparr>, pathname = p\<rparr> =
           countVisibleBookmarks
             \<lparr>liveDocument = \<lparr>main = Some (before @ after), aside = sb\<rparr>, pathname = p\<rparr>"
proof -
  from assms have a: "str_includes (toLowerCase (trim (cardText c))) ''archived'' \<or>
           str_includes (toLowerCase (className c)) ''archived'' \<or> dataArchived c"
    by (simp only: archived_in_trimmed_text)
  have d: "documentCard c k = k" for k
    using a by (auto simp: documentCard_def Let_def)
  have v: "visibleCard c k = k" for k
    using a by (auto simp: visibleCard_def Let_def)
  show ?thesis
    by (simp add: d v countBookmarksInDocument_sum countVisibleBookmarks_sum)
qed

text \<open>
  The card \<open>archivedCard\<close> is a valid candidate (outbound link, 19 characters) whose text
  says "Archived": it is not counted.
\<close>

theorem archived_entry_never_counted_witness:
  "str_includes (toLowerCase (cardText archivedCard)) ''archived'' \<and>
   externalLink archivedCard \<and> length (trim (cardText archivedCard)) = 19 \<and>
   documentCard archivedCard 0 = 0 \<and> visibleCard archivedCard 0 = 0 \<and>
   countBookmarksInDocument \<lparr>main = Some ([] @ archivedCard # []), aside = None\<rparr> =
     countBookmarksInDocument \<lparr>main = Some ([] @ []), aside = None\<rparr> \<and>
   countVisibleBookmarks
       \<lparr>liveDocument = \<lparr>main = Some ([] @ archivedCard # []), aside = None\<rparr>, pathname = ''/''\<rparr> =
     countVisibleBookmarks
       \<lparr>liveDocument = \<lparr>main = Some ([] @ []), aside = None\<rparr>, pathname = ''/''\<rparr>"
proof -
  have h: "str_includes (toLowerCase (cardText archivedCard)) ''archived''"
    by code_simp
  have v: "externalLink archivedCard \<and> length (trim (cardText archivedCard)) = 19"
    by (simp add: archivedCard_def trim_def isWhiteSpace_def)
  from archived_entry_never_counted [of archivedCard 0 "[]" "[]" None "''/''"] h v show ?thesis
    by blast
qed

text \<open>
  Claim C5, as amended. When the main region is absent, \<open>countBookmarksInDocument\<close>
  returns 0 on a fetched document, and \<open>countVisibleBookmarks\<close> returns \<open>null\<close> on the live
  page; \<open>updateListCount\<close>, resumed with \<open>null\<close>, leaves the world as it is.
\<close>

theorem main_region_absent:
  "countBookmarksInDocument \<lparr>main = None, aside = sb\<rparr> = 0 \<and>
   countVisibleBookmarks \<lparr>liveDocument = \<lparr>main = None, aside = sb\<rparr>, pathname = p\<rparr> = None \<and>
   updateListCount_resume L (Returns None) w = (Fulfilled, w)"
  by (simp add: countBookmarksInDocument_def countVisibleBookmarks_def updateListCount_resume_def)

text \<open>
  The claim as stated, that the count is 0 on the live page too, fails: on a live page with
  no main region the result is not 0.
\<close>

theorem live_count_without_main_counterexample:
  "countVisibleBookmarks
     \<lparr>liveDocument = \<lparr>main = None, aside = None\<rparr>, pathname = ''/dashboard/lists/abc123''\<rparr>
   \<noteq> Some 0"
  by (simp add: countVisibleBookmarks_def)

section \<open>A run, step by step\<close>


lemma fetchListBookmarkCount_result:
  "fst (fetchListBookmarkCount net lid w) =
     (case net (''/dashboard/lists/'' @ lid) of
        Responds t r \<Rightarrow>
          if t < 5000 \<and> ok r
          then (case responseBody r of
                  BodyArrives doc \<Rightarrow> Returns (Some (countBookmarksInDocument doc))
                | BodyFails \<Rightarrow> Returns None
                | BodyStalls \<Rightarrow> Pending)
          else Returns None
      | Fails t \<Rightarrow> Returns None
      | Unanswered \<Rightarrow> Returns None)"
  by (simp add: fetchListBookmarkCount_def fetchListBookmarkCount_try_def fetch_def Let_def
      split: exchange.splits body.splits)

lemma fetchListBookmarkCount_world:
  "snd (fetchListBookmarkCount net lid w) = w\<lparr>requests := requests w @ [''/dashboard/lists/'' @ lid]\<rparr>"
  by (simp add: fetchListBookmarkCount_def Let_def split: completion.splits)

lemma getUnarchivedCountForList_result:
  "fst (getUnarchivedCountForList win net lid w) =
     (if at_index (split (pathname win) ''/lists/'') 1 = Some lid
      then Returns (countVisibleBookmarks win)
      else fst (fetchListBookmarkCount net lid w0))"
  by (simp add: getUnarchivedCountForList_def Let_def fetchListBookmarkCount_result)

lemma getUnarchivedCountForList_world:
  "snd (getUnarchivedCountForList win net lid w) =
     w\<lparr>requests := requests w @
         (if at_index (split (pathname win) ''/lists/'') 1 = Some lid then []
          else [''/dashboard/lists/'' @ lid])\<rparr>"
  by (simp add: getUnarchivedCountForList_def Let_def fetchListBookmarkCount_world)

lemma getUnarchivedCountForList_same_exchange:
  assumes "net' (''/dashboard/lists/'' @ lid) = net (''/dashboard/lists/'' @ lid)"
  shows "fst (getUnarchivedCountForList win net' lid w') = fst (getUnarchivedCountForList win net lid w)"
  using assms by (simp add: getUnarchivedCountForList_def Let_def fetchListBookmarkCount_result)

lemma updateListCount_resume_world:
  "snd (updateListCount_resume L awaited w) =
     w\<lparr>textContent := applyWrites (textContent w) (writeOf L awaited),
       domWrites := domWrites w @ writeOf L awaited\<rparr>"
  by (simp add: updateListCount_resume_def writeOf_def applyWrites_def
      split: completion.splits option.splits)

lemma startUpdates_result:
  "fst (startUpdates win net links w) =
     map (\<lambda>L. fst (getUnarchivedCountForList win net (listId L) w0)) links"
proof (induction links arbitrary: w)
  case Nil
  then show ?case by simp
next
  case (Cons L links)
  have "fst (getUnarchivedCountForList win net (listId L) w) =
        fst (getUnarchivedCountForList win net (listId L) w0)"
    by (rule getUnarchivedCountForList_same_exchange) simp
  with Cons show ?case
    by (simp add: split_beta Let_def)
qed

lemma startUpdates_world:
  "snd (startUpdates win net links w) =
     w\<lparr>requests := requests w @
         map (\<lambda>L. ''/dashboard/lists/'' @ listId L)
           (filter (\<lambda>L. at_index (split (pathname win) ''/lists/'') 1 \<noteq> Some (listId L)) links)\<rparr>"
proof (induction links arbitrary: w)
  case Nil
  then show ?case by simp
next
  case (Cons L links)
  then show ?case
    by (simp add: split_beta Let_def getUnarchivedCountForList_world)
qed

lemma resumeAt_world:
  "resumeAt links awaited w i =
     w\<lparr>textContent := applyWrites (textContent w) (writesAt links awaited i),
       domWrites := domWrites w @ writesAt links awaited i\<rparr>"
  by (simp add: resumeAt_def writesAt_def updateListCount_resume_world applyWrites_def)

lemma applyWrites_append: "applyWrites txt (xs @ ys) = applyWrites (applyWrites txt xs) ys"
  by (simp add: applyWrites_def)

lemma settleUpdates_world:
  "settleUpdates links awaited order w =
     w\<lparr>textContent := applyWrites (textContent w) (concat (map (writesAt links awaited) order)),
       domWrites := domWrites w @ concat (map (writesAt links awaited) order)\<rparr>"
  unfolding settleUpdates_def
proof (induction order arbitrary: w)
  case Nil
  then show ?case by (simp add: applyWrites_def)
next
  case (Cons i order)
  show ?case
    by (simp only: foldl_Cons Cons) (simp add: resumeAt_world applyWrites_append)
qed

lemma concat_map_Nil [simp]: "concat (map (\<lambda>i. []) xs) = []"
  by (induction xs) simp_all

lemma writesAt_Nil [simp]: "writesAt [] awaited = (\<lambda>i. [])"
  by (rule ext) (simp add: writesAt_def)

lemma writeOf_known:
  assumes "(b, t) \<in> set (writeOf L r)"
  shows "\<exists>n. r = Returns (Some n) \<and> int n \<noteq> currentCount L \<and> b = countBadge L \<and> t = toString n"
  using assms by (cases r) (auto simp: writeOf_def split: option.splits if_splits)

lemma updateAllListCounts_world:
  "snd (updateAllListCounts this now win net order w) =
     (if now - lastUpdateTime this < updateCooldown this then w
      else
        (let links = findAllListLinks (liveDocument win) (textContent w);
             awaited = map (\<lambda>L. fst (getUnarchivedCountForList win net (listId L) w)) links;
             ws = concat (map (writesAt links awaited) order)
         in w\<lparr>textContent := applyWrites (textContent w) ws,
              domWrites := domWrites w @ ws,
              requests := requests w @
                map (\<lambda>L. ''/dashboard/lists/'' @ listId L)
                  (filter (\<lambda>L. at_index (split (pathname win) ''/lists/'') 1 \<noteq> Some (listId L)) links),
              sidebarQueries := sidebarQueries w +
                (if aside (liveDocument win) = None then 1 else 2)\<rparr>))"
proof (cases "now - lastUpdateTime this < updateCooldown this")
  case True
  then show ?thesis by (simp add: updateAllListCounts_def)
next
  case False
  show ?thesis
  proof (cases "aside (liveDocument win)")
    case None
    then have "findAllListLinks (liveDocument win) (textContent w) = []"
      by (simp add: findAllListLinks_def)
    with False None show ?thesis
      by (simp add: updateAllListCounts_def Let_def applyWrites_def)
  next
    case (Some sb)
    show ?thesis
    proof (cases "findAllListLinks (liveDocument win) (textContent w) = []")
      case True
      with False Some show ?thesis
        by (simp add: updateAllListCounts_def Let_def applyWrites_def)
    next
      case nonempty: False
      have aw: "fst (startUpdates win net links w') =
          map (\<lambda>L. fst (getUnarchivedCountForList win net (listId L) w)) links" for links w'
        by (rule startUpdates_result)
      from False Some nonempty show ?thesis
        by (simp add: updateAllListCounts_def Let_def split_beta aw startUpdates_world
            settleUpdates_world)
    qed
  qed
qed

lemma updateAllListCounts_counter:
  "fst (updateAllListCounts this now win net order w) =
     (if \<not> now - lastUpdateTime this < updateCooldown this \<and>
         aside (liveDocument win) \<noteq> None \<and>
         findAllListLinks (liveDocument win) (textContent w) \<noteq> []
      then this\<lparr>lastUpdateTime := now\<rparr> else this)"
  by (simp add: updateAllListCounts_def Let_def split_beta split: option.splits)

lemma writesAt_known:
  assumes "(b, t) \<in> set (writesAt links (map f links) i)"
  shows "\<exists>L\<in>set links. \<exists>n. f L = Returns (Some n) \<and> int n \<noteq> currentCount L \<and>
           b = countBadge L \<and> t = toString n"
proof -
  from assms have i: "i < length links" and w: "(b, t) \<in> set (writeOf (links ! i) (f (links ! i)))"
    by (auto simp: writesAt_def split: if_splits)
  from writeOf_known [OF w] obtain n where "f (links ! i) = Returns (Some n)"
      "int n \<noteq> currentCount (links ! i)" "b = countBadge (links ! i)" "t = toString n"
    by blast
  moreover from i have "links ! i \<in> set links" by simp
  ultimately show ?thesis by blast
qed

lemma completion_order_covers:
  assumes "is_completion_order n order" and "i < n"
  shows "i \<in> set order"
proof -
  from assms(1) have "set (sort order) = set [0..<n]" by (simp add: is_completion_order_def)
  with assms(2) show ?thesis by simp
qed

lemma listLinkOf_currentCount:
  assumes "listLinkOf txt a = Some L"
  shows "currentCount L = or_zero (parseInt (trim (txt (countBadge L))))"
  using assms
  by (auto simp: listLinkOf_def Let_def split: option.splits if_splits)

lemma findAllListLinks_currentCount:
  assumes "L \<in> set (findAllListLinks doc txt)"
  shows "currentCount L = or_zero (parseInt (trim (txt (countBadge L))))"
proof -
  from assms obtain a where "listLinkOf txt a = Some L"
    by (auto simp: findAllListLinks_def List.map_filter_def split: option.splits)
  then show ?thesis by (rule listLinkOf_currentCount)
qed

text \<open>
  Claim C1. For every list that a scan discovers, the displayed count is the badge's text
  parsed at scan time, and \<open>updateListCount\<close> writes the badge exactly when the resolved
  count is a known integer different from it: the badge's text becomes that integer's
  decimal form; when the resolved count equals the displayed count, is \<open>null\<close>, or never
  arrives, the text stays as it is. In a whole run, every badge write comes from a
  discovered list whose resolved count is known and differs from its displayed count,
  and the text after the run is the text before it with these writes applied.
\<close>

theorem badge_written_iff_count_known_and_different:
  assumes "L \<in> set (findAllListLinks (liveDocument win) (textContent w))"
  shows "currentCount L = or_zero (parseInt (trim (textContent w (countBadge L)))) \<and>
         textContent (snd (updateListCount win net L w)) =
           (case fst (getUnarchivedCountForList win net (listId L) w) of
              Returns (Some n) \<Rightarrow>
                if int n \<noteq> currentCount L then (textContent w)(countBadge L := toString n)
                else textContent w
            | _ \<Rightarrow> textContent w) \<and>
         domWrites (snd (updateListCount win net L w)) =
           (case fst (getUnarchivedCountForList win net (listId L) w) of
              Returns (Some n) \<Rightarrow>
                if int n \<noteq> currentCount L then domWrites w @ [(countBadge L, toString n)]
                else domWrites w
            | _ \<Rightarrow> domWrites w) \<and>
         (\<forall>(b, t) \<in> set (drop (length (domWrites w))
                          (domWrites (snd (updateAllListCounts this now win net order w)))).
            \<exists>L' \<in> set (findAllListLinks (liveDocument win) (textContent w)). \<exists>n.
              fst (getUnarchivedCountForList win net (listId L') w) = Returns (Some n) \<and>
              int n \<noteq> currentCount L' \<and> b = countBadge L' \<and> t = toString n) \<and>
         textContent (snd (updateAllListCounts this now win net order w)) =
           applyWrites (textContent w)
             (drop (length (domWrites w))
                (domWrites (snd (updateAllListCounts this now win net order w))))"
proof -
  have a: "currentCount L = or_zero (parseInt (trim (textContent w (countBadge L))))"
    using assms by (rule findAllListLinks_currentCount)
  have w1: "textContent (snd (getUnarchivedCountForList win net (listId L) w)) = textContent w"
       "domWrites (snd (getUnarchivedCountForList win net (listId L) w)) = domWrites w"
    by (simp_all add: getUnarchivedCountForList_world)
  have b: "textContent (snd (updateListCount win net L w)) =
           (case fst (getUnarchivedCountForList win net (listId L) w) of
              Returns (Some n) \<Rightarrow>
                if int n \<noteq> currentCount L then (textContent w)(countBadge L := toString n)
                else textContent w
            | _ \<Rightarrow> textContent w)"
    using w1
    by (simp add: updateListCount_def split_beta updateListCount_resume_def
        split: completion.splits option.splits)
  have c: "domWrites (snd (updateListCount win net L w)) =
           (case fst (getUnarchivedCountForList win net (listId L) w) of
              Returns (Some n) \<Rightarrow>
                if int n \<noteq> currentCount L then domWrites w @ [(countBadge L, toString n)]
                else domWrites w
            | _ \<Rightarrow> domWrites w)"
    using w1
    by (simp add: updateListCount_def split_beta updateListCount_resume_def
        split: completion.splits option.splits)
  define links where "links = findAllListLinks (liveDocument win) (textContent w)"
  define f :: "list_info \<Rightarrow> nat option completion"
    where "f = (\<lambda>L. fst (getUnarchivedCountForList win net (listId L) w))"
  define ws where "ws = (if now - lastUpdateTime this < updateCooldown this then []
      else concat (map (writesAt links (map f links)) order))"
  have dw: "domWrites (snd (updateAllListCounts this now win net order w)) = domWrites w @ ws"
    and tc: "textContent (snd (updateAllListCounts this now win net order w)) =
             applyWrites (textContent w) ws"
    by (simp_all add: updateAllListCounts_world Let_def ws_def links_def f_def applyWrites_def)
  have d: "\<forall>(b, t) \<in> set ws. \<exists>L' \<in> set links. \<exists>n.
              f L' = Returns (Some n) \<and> int n \<noteq> currentCount L' \<and> b = countBadge L' \<and> t = toString n"
  proof (clarify)
    fix b t
    assume "(b, t) \<in> set ws"
    then obtain i where "(b, t) \<in> set (writesAt links (map f links) i)"
      by (auto simp: ws_def split: if_splits)
    then show "\<exists>L' \<in> set links. \<exists>n.
              f L' = Returns (Some n) \<and> int n \<noteq> currentCount L' \<and> b = countBadge L' \<and> t = toString n"
      by (rule writesAt_known)
  qed
  from a b c d dw tc show ?thesis
    by (simp add: links_def f_def)
qed

text \<open>The example page: what a scan finds and how each list resolves.\<close>

lemma example_scan:
  "findAllListLinks (liveDocument examplePage) (textContent exampleWorld) =
     [readingInfo, laterInfo, brokenInfo]"
  by code_simp

lemma example_live: "fst (getUnarchivedCountForList examplePage exampleNetwork (listId readingInfo) exampleWorld) = Returns (Some 1)"
  by code_simp

lemma example_later: "fst (getUnarchivedCountForList examplePage exampleNetwork (listId laterInfo) exampleWorld) = Returns (Some 2)"
  by code_simp

lemma example_broken: "fst (getUnarchivedCountForList examplePage exampleNetwork (listId brokenInfo) exampleWorld) = Returns None"
  by code_simp

lemma example_run_writes:
  "drop (length (domWrites exampleWorld))
     (domWrites (snd (updateAllListCounts constructor 1700000000000 examplePage exampleNetwork
                        [2, 0, 1] exampleWorld))) = [(1, ''1''), (2, ''2'')]"
  by code_simp

text \<open>
  On the example page the list being viewed shows 12 and has one unarchived bookmark: its
  badge becomes 1. The request for the list \<open>bad000\<close> is never answered: its badge stays.
  The run writes 1 to the first badge, for a list whose count is known and is not 12.
\<close>

theorem badge_written_iff_count_known_and_different_witness:
  "readingInfo \<in> set (findAllListLinks (liveDocument examplePage) (textContent exampleWorld)) \<and>
   brokenInfo \<in> set (findAllListLinks (liveDocument examplePage) (textContent exampleWorld)) \<and>
   currentCount readingInfo = or_zero (parseInt (trim (textContent exampleWorld (countBadge readingInfo)))) \<and>
   textContent (snd (updateListCount examplePage exampleNetwork readingInfo exampleWorld)) =
     (textContent exampleWorld)(countBadge readingInfo := ''1'') \<and>
   textContent (snd (updateListCount examplePage exampleNetwork brokenInfo exampleWorld)) =
     textContent exampleWorld \<and>
   (1, ''1'') \<in> set (drop (length (domWrites exampleWorld))
     (domWrites (snd (updateAllListCounts constructor 1700000000000 examplePage exampleNetwork
                        [2, 0, 1] exampleWorld)))) \<and>
   (\<exists>L' \<in> set (findAllListLinks (liveDocument examplePage) (textContent exampleWorld)). \<exists>n.
      fst (getUnarchivedCountForList examplePage exampleNetwork (listId L') exampleWorld) =
        Returns (Some n) \<and>
      int n \<noteq> currentCount L' \<and> 1 = countBadge L' \<and> ''1'' = toString n)"
proof -
  have h1: "readingInfo \<in> set (findAllListLinks (liveDocument examplePage) (textContent exampleWorld))"
    and h2: "brokenInfo \<in> set (findAllListLinks (liveDocument examplePage) (textContent exampleWorld))"
    by (simp_all add: example_scan)
  have n: "int 1 \<noteq> currentCount readingInfo"
    by (simp add: readingInfo_def)
  have t: "toString 1 = ''1''"
    by code_simp
  have m: "(1, ''1'') \<in> set (drop (length (domWrites exampleWorld))
     (domWrites (snd (updateAllListCounts constructor 1700000000000 examplePage exampleNetwork
                        [2, 0, 1] exampleWorld))))"
    unfolding example_run_writes by simp
  note g = badge_written_iff_count_known_and_different
      [OF h1, where net = exampleNetwork and this = constructor and now = 1700000000000
         and order = "[2, 0, 1]"]
  from g have "\<forall>(b, t) \<in> set (drop (length (domWrites exampleWorld))
                          (domWrites (snd (updateAllListCounts constructor 1700000000000 examplePage
                             exampleNetwork [2, 0, 1] exampleWorld)))).
            \<exists>L' \<in> set (findAllListLinks (liveDocument examplePage) (textContent exampleWorld)). \<exists>n.
              fst (getUnarchivedCountForList examplePage exampleNetwork (listId L') exampleWorld) =
                Returns (Some n) \<and>
              int n \<noteq> currentCount L' \<and> b = countBadge L' \<and> t = toString n"
    by blast
  with m have run: "\<exists>L' \<in> set (findAllListLinks (liveDocument examplePage) (textContent exampleWorld)). \<exists>n.
      fst (getUnarchivedCountForList examplePage exampleNetwork (listId L') exampleWorld) =
        Returns (Some n) \<and>
      int n \<noteq> currentCount L' \<and> 1 = countBadge L' \<and> ''1'' = toString n"
    by blast
  from g badge_written_iff_count_known_and_different [OF h2, of exampleNetwork] h1 h2 n t
  have one: "currentCount readingInfo =
      or_zero (parseInt (trim (textContent exampleWorld (countBadge readingInfo)))) \<and>
    textContent (snd (updateListCount examplePage exampleNetwork readingInfo exampleWorld)) =
      (textContent exampleWorld)(countBadge readingInfo := ''1'') \<and>
    textContent (snd (updateListCount examplePage exampleNetwork brokenInfo exampleWorld)) =
      textContent exampleWorld"
    by (simp add: example_live example_broken)
  from h1 h2 one m run show ?thesis by blast
qed

lemma settleUpdates_writes:
  assumes "i \<in> set order" and "i < length links" and "i < length awaited"
    and "awaited ! i = Returns (Some n)" and "int n \<noteq> currentCount (links ! i)"
  shows "(countBadge (links ! i), toString n) \<in>
           set (drop (length (domWrites w)) (domWrites (settleUpdates links awaited order w)))"
proof -
  from assms(2-5) have "writesAt links awaited i = [(countBadge (links ! i), toString n)]"
    by (simp add: writesAt_def writeOf_def)
  with assms(1) have "(countBadge (links ! i), toString n) \<in>
      set (concat (map (writesAt links awaited) order))"
    by force
  then show ?thesis
    by (simp add: settleUpdates_world)
qed

text \<open>
  Claim C8. Within one run every list is resolved on its own: a request goes out for every
  list but the one being viewed, and a list whose resolved count is known and differs from
  its displayed count has its badge written whatever the network does for the other
  lists (\<open>net'\<close> is any network that treats this list's request as \<open>net\<close> does), in
  any order in which the resolutions settle. The same holds when the calls are resumed
  with any outcomes at all for the other lists: a count, \<open>null\<close>, an exception, or no
  outcome ever.
\<close>

theorem update_completes_despite_other_failures:
  assumes "\<not> now - lastUpdateTime this < updateCooldown this"
    and "L \<in> set (findAllListLinks (liveDocument win) (textContent w))"
    and "is_completion_order (length (findAllListLinks (liveDocument win) (textContent w))) order"
    and "fst (getUnarchivedCountForList win net (listId L) w) = Returns (Some n)"
    and "int n \<noteq> currentCount L"
    and "net' (''/dashboard/lists/'' @ listId L) = net (''/dashboard/lists/'' @ listId L)"
  shows "fst (getUnarchivedCountForList win net' (listId L) w) = Returns (Some n) \<and>
         (countBadge L, toString n) \<in>
           set (drop (length (domWrites w))
                  (domWrites (snd (updateAllListCounts this now win net' order w)))) \<and>
         requests (snd (updateAllListCounts this now win net' order w)) =
           requests w @
           map (\<lambda>L. ''/dashboard/lists/'' @ listId L)
             (filter (\<lambda>L. at_index (split (pathname win) ''/lists/'') 1 \<noteq> Some (listId L))
                (findAllListLinks (liveDocument win) (textContent w))) \<and>
         (\<forall>awaited. length awaited = length (findAllListLinks (liveDocument win) (textContent w)) \<and>
            (\<exists>i < length awaited.
               findAllListLinks (liveDocument win) (textContent w) ! i = L \<and>
               awaited ! i = Returns (Some n)) \<longrightarrow>
            (countBadge L, toString n) \<in>
              set (drop (length (domWrites w'))
                     (domWrites (settleUpdates
                        (findAllListLinks (liveDocument win) (textContent w)) awaited order w'))))"
proof -
  define links where "links = findAllListLinks (liveDocument win) (textContent w)"
  define f :: "list_info \<Rightarrow> nat option completion"
    where "f = (\<lambda>L. fst (getUnarchivedCountForList win net' (listId L) w))"
  from assms(2) obtain i where i: "i < length links" and L: "links ! i = L"
    by (auto simp: links_def in_set_conv_nth)
  from assms(3) i have io: "i \<in> set order"
    by (auto simp: links_def intro: completion_order_covers)
  have "f L = fst (getUnarchivedCountForList win net (listId L) w)"
    unfolding f_def using assms(6) by (rule getUnarchivedCountForList_same_exchange)
  with assms(4) have fL: "f L = Returns (Some n)" by simp
  from settleUpdates_writes [OF io i, of "map f links" n w] i L fL assms(5)
  have "(countBadge L, toString n) \<in>
      set (drop (length (domWrites w)) (domWrites (settleUpdates links (map f links) order w)))"
    by simp
  then have wr: "(countBadge L, toString n) \<in> set (concat (map (writesAt links (map f links)) order))"
    by (simp add: settleUpdates_world)
  have a: "fst (getUnarchivedCountForList win net' (listId L) w) = Returns (Some n)"
    using fL by (simp add: f_def)
  have b: "(countBadge L, toString n) \<in>
           set (drop (length (domWrites w))
                  (domWrites (snd (updateAllListCounts this now win net' order w))))"
    using assms(1) wr by (simp add: updateAllListCounts_world Let_def links_def f_def)
  have c: "requests (snd (updateAllListCounts this now win net' order w)) =
           requests w @
           map (\<lambda>L. ''/dashboard/lists/'' @ listId L)
             (filter (\<lambda>L. at_index (split (pathname win) ''/lists/'') 1 \<noteq> Some (listId L)) links)"
    using assms(1) by (simp add: updateAllListCounts_world Let_def links_def)
  have d: "\<forall>awaited. length awaited = length links \<and>
            (\<exists>i < length awaited. links ! i = L \<and> awaited ! i = Returns (Some n)) \<longrightarrow>
            (countBadge L, toString n) \<in>
              set (drop (length (domWrites w'))
                     (domWrites (settleUpdates links awaited order w')))"
  proof (intro allI impI)
    fix awaited
    assume h: "length awaited = length links \<and>
            (\<exists>i < length awaited. links ! i = L \<and> awaited ! i = Returns (Some n))"
    then obtain j where j: "j < length awaited" "links ! j = L" "awaited ! j = Returns (Some n)"
      by blast
    with h have jl: "j < length links" by simp
    with assms(3) have jo: "j \<in> set order"
      by (auto simp: links_def intro: completion_order_covers)
    from settleUpdates_writes [OF jo jl j(1) j(3), of w'] j(2) assms(5)
    show "(countBadge L, toString n) \<in>
              set (drop (length (domWrites w'))
                     (domWrites (settleUpdates links awaited order w')))"
      by simp
  qed
  from a b c d show ?thesis
    unfolding links_def by blast
qed

text \<open>
  On the example page, with the request for \<open>bad000\<close> failing after 40 ms and the
  resolutions settling in the order 2, 0, 1, the badge of \<open>xyz789\<close> is written 2; so it is
  when the first list's resolution throws and the third never settles.
\<close>

theorem update_completes_despite_other_failures_witness:
  "\<not> 1700000000000 - lastUpdateTime constructor < updateCooldown constructor \<and>
   laterInfo \<in> set (findAllListLinks (liveDocument examplePage) (textContent exampleWorld)) \<and>
   is_completion_order (length (findAllListLinks (liveDocument examplePage) (textContent exampleWorld)))
     [2, 0, 1] \<and>
   fst (getUnarchivedCountForList examplePage exampleNetwork (listId laterInfo) exampleWorld) =
     Returns (Some 2) \<and>
   int 2 \<noteq> currentCount laterInfo \<and>
   fst (getUnarchivedCountForList examplePage
          (exampleNetwork(''/dashboard/lists/bad000'' := Fails 40)) (listId brokenInfo) exampleWorld) =
     Returns None \<and>
   (countBadge laterInfo, ''2'') \<in>
     set (drop (length (domWrites exampleWorld))
            (domWrites (snd (updateAllListCounts constructor 1700000000000 examplePage
               (exampleNetwork(''/dashboard/lists/bad000'' := Fails 40)) [2, 0, 1] exampleWorld)))) \<and>
   (countBadge laterInfo, ''2'') \<in>
     set (drop (length (domWrites exampleWorld))
            (domWrites (settleUpdates
               (findAllListLinks (liveDocument examplePage) (textContent exampleWorld))
               [Throws TypeError, Returns (Some 2), Pending] [2, 0, 1] exampleWorld)))"
proof -
  have h1: "\<not> 1700000000000 - lastUpdateTime constructor < updateCooldown constructor"
    by (simp add: constructor_def)
  have h2: "laterInfo \<in> set (findAllListLinks (liveDocument examplePage) (textContent exampleWorld))"
    by (simp add: example_scan)
  have h3: "is_completion_order
      (length (findAllListLinks (liveDocument examplePage) (textContent exampleWorld))) [2, 0, 1]"
    unfolding example_scan by code_simp
  have h5: "int 2 \<noteq> currentCount laterInfo"
    by (simp add: laterInfo_def)
  have h6: "(exampleNetwork(''/dashboard/lists/bad000'' := Fails 40))
              (''/dashboard/lists/'' @ listId laterInfo) =
            exampleNetwork (''/dashboard/lists/'' @ listId laterInfo)"
    by (simp add: laterInfo_def)
  have h7: "length [Throws TypeError, Returns (Some 2), Pending :: nat option completion] =
              length (findAllListLinks (liveDocument examplePage) (textContent exampleWorld)) \<and>
            (\<exists>i < length [Throws TypeError, Returns (Some 2), Pending :: nat option completion].
               findAllListLinks (liveDocument examplePage) (textContent exampleWorld) ! i = laterInfo \<and>
               [Throws TypeError, Returns (Some 2), Pending] ! i = Returns (Some 2))"
    unfolding example_scan by (auto intro: exI [of _ 1])
  have b: "fst (getUnarchivedCountForList examplePage
          (exampleNetwork(''/dashboard/lists/bad000'' := Fails 40)) (listId brokenInfo) exampleWorld) =
     Returns None"
    by code_simp
  have t: "toString 2 = ''2''"
    by code_simp
  note g = update_completes_despite_other_failures
         [where net' = "exampleNetwork(''/dashboard/lists/bad000'' := Fails 40)"
            and net = exampleNetwork and w' = exampleWorld, OF h1 h2 h3 example_later h5 h6]
  from g have A: "(countBadge laterInfo, toString 2) \<in>
     set (drop (length (domWrites exampleWorld))
            (domWrites (snd (updateAllListCounts constructor 1700000000000 examplePage
               (exampleNetwork(''/dashboard/lists/bad000'' := Fails 40)) [2, 0, 1] exampleWorld))))"
    by blast
  from g h7 have B: "(countBadge laterInfo, toString 2) \<in>
     set (drop (length (domWrites exampleWorld))
            (domWrites (settleUpdates
               (findAllListLinks (liveDocument examplePage) (textContent exampleWorld))
               [Throws TypeError, Returns (Some 2), Pending] [2, 0, 1] exampleWorld)))"
    by blast
  from A B h1 h2 h3 h5 b example_later show ?thesis
    unfolding t by blast
qed

section \<open>The cooldown gate and the unused cache\<close>

text \<open>The cooldown is the constructor's 10000 ms throughout: no run changes it.\<close>

lemma runs_updateCooldown: "updateCooldown (fst (runs this w ts)) = updateCooldown this"
proof (induction ts arbitrary: this w)
  case Nil
  then show ?case by simp
next
  case (Cons t ts)
  have "updateCooldown (fst (updateAllListCounts this (firedAt t) (seenWindow t) (seenNetwork t)
           (settleOrder t) w)) = updateCooldown this"
    by (simp add: updateAllListCounts_counter)
  with Cons show ?case
    by (simp add: split_beta)
qed

text \<open>A run that finds no list writes nothing and leaves the text of the badges.\<close>

lemma not_ready_run_world:
  assumes "findAllListLinks (liveDocument win) (textContent w) = []"
  shows "textContent (snd (updateAllListCounts this now win net order w)) = textContent w"
    and "domWrites (snd (updateAllListCounts this now win net order w)) = domWrites w"
  using assms by (simp_all add: updateAllListCounts_world Let_def applyWrites_def)

text \<open>
  Claim C2. The minimum interval is 10000 ms, set by the constructor and changed by no run.
  A run returns at once, with the counter and the world (its logs of sidebar queries,
  requests and badge writes included) as before, exactly when less than that interval has
  passed since \<open>lastUpdateTime\<close>. The first run, on the counter as the constructor leaves
  it, is not suppressed: \<open>lastUpdateTime\<close> starts at 0 and \<open>now\<close> is a reading of
  \<open>Date.now()\<close>, milliseconds since 1 January 1970, which is at least 10000 on any
  clock that is not set to the first ten seconds of 1970. \<open>lastUpdateTime\<close>
  becomes \<open>now\<close> exactly when the gate is passed, the sidebar is present and the scan
  finds a list, whatever the network and the settle order do afterwards. A second run
  within the cooldown of a run that got that far changes nothing at all, on any page; and
  a second run on the same page within the interval after any run that passed the gate
  writes no badge.
\<close>

theorem cooldown_gate:
  "updateCooldown constructor = 10000 \<and> lastUpdateTime constructor = 0 \<and>
   updateCooldown (fst (updateAllListCounts this now win net order w)) = updateCooldown this \<and>
   updateCooldown (fst (runs constructor w ts)) = 10000 \<and>
   (updateAllListCounts this now win net order w = (this, w)) =
     (now - lastUpdateTime this < updateCooldown this) \<and>
   (10000 \<le> now0 \<longrightarrow>
      updateAllListCounts constructor now0 win0 net0 order0 w0 \<noteq> (constructor, w0) \<and>
      sidebarQueries w0 <
        sidebarQueries (snd (updateAllListCounts constructor now0 win0 net0 order0 w0))) \<and>
   fst (updateAllListCounts this1 now1 win1 net1 order1 w1) =
     (if \<not> now1 - lastUpdateTime this1 < updateCooldown this1 \<and>
         aside (liveDocument win1) \<noteq> None \<and>
         findAllListLinks (liveDocument win1) (textContent w1) \<noteq> []
      then this1\<lparr>lastUpdateTime := now1\<rparr> else this1) \<and>
   (\<not> now1 - lastUpdateTime this1 < updateCooldown this1 \<and>
    aside (liveDocument win1) \<noteq> None \<and>
    findAllListLinks (liveDocument win1) (textContent w1) \<noteq> [] \<and>
    now2 - now1 < updateCooldown this1 \<longrightarrow>
      updateAllListCounts (fst (updateAllListCounts this1 now1 win1 net1 order1 w1)) now2 win2 net2 order2
          (snd (updateAllListCounts this1 now1 win1 net1 order1 w1)) =
        updateAllListCounts this1 now1 win1 net1 order1 w1) \<and>
   (\<not> now1 - lastUpdateTime this1 < updateCooldown this1 \<and>
    now2 - now1 < updateCooldown this1 \<longrightarrow>
      domWrites (snd (updateAllListCounts
                        (fst (updateAllListCounts this1 now1 win1 net1 order1 w1)) now2 win1 net2 order2
                        (snd (updateAllListCounts this1 now1 win1 net1 order1 w1)))) =
        domWrites (snd (updateAllListCounts this1 now1 win1 net1 order1 w1)))"
proof -
  have p: "updateCooldown constructor = 10000 \<and> lastUpdateTime constructor = 0"
    by (simp add: constructor_def)
  have q: "updateCooldown (fst (updateAllListCounts this now win net order w)) = updateCooldown this"
    by (simp add: updateAllListCounts_counter)
  have r: "updateCooldown (fst (runs constructor w ts)) = 10000"
    by (simp add: runs_updateCooldown constructor_def)
  have a: "(updateAllListCounts this now win net order w = (this, w)) =
     (now - lastUpdateTime this < updateCooldown this)"
  proof (cases "now - lastUpdateTime this < updateCooldown this")
    case True
    then show ?thesis by (simp add: updateAllListCounts_def)
  next
    case False
    then have "sidebarQueries (snd (updateAllListCounts this now win net order w)) \<noteq> sidebarQueries w"
      by (simp add: updateAllListCounts_world Let_def)
    then have "updateAllListCounts this now win net order w \<noteq> (this, w)"
      by auto
    with False show ?thesis by simp
  qed
  have b: "10000 \<le> now0 \<longrightarrow>
      updateAllListCounts constructor now0 win0 net0 order0 w0 \<noteq> (constructor, w0) \<and>
      sidebarQueries w0 <
        sidebarQueries (snd (updateAllListCounts constructor now0 win0 net0 order0 w0))"
  proof
    assume h: "10000 \<le> now0"
    then have s: "sidebarQueries w0 <
        sidebarQueries (snd (updateAllListCounts constructor now0 win0 net0 order0 w0))"
      by (simp add: updateAllListCounts_world Let_def constructor_def)
    then have "updateAllListCounts constructor now0 win0 net0 order0 w0 \<noteq> (constructor, w0)"
      by auto
    with s show "updateAllListCounts constructor now0 win0 net0 order0 w0 \<noteq> (constructor, w0) \<and>
      sidebarQueries w0 <
        sidebarQueries (snd (updateAllListCounts constructor now0 win0 net0 order0 w0))"
      by simp
  qed
  have c: "fst (updateAllListCounts this1 now1 win1 net1 order1 w1) =
     (if \<not> now1 - lastUpdateTime this1 < updateCooldown this1 \<and>
         aside (liveDocument win1) \<noteq> None \<and>
         findAllListLinks (liveDocument win1) (textContent w1) \<noteq> []
      then this1\<lparr>lastUpdateTime := now1\<rparr> else this1)"
    by (rule updateAllListCounts_counter)
  have d: "\<not> now1 - lastUpdateTime this1 < updateCooldown this1 \<and>
    aside (liveDocument win1) \<noteq> None \<and>
    findAllListLinks (liveDocument win1) (textContent w1) \<noteq> [] \<and>
    now2 - now1 < updateCooldown this1 \<longrightarrow>
      updateAllListCounts (fst (updateAllListCounts this1 now1 win1 net1 order1 w1)) now2 win net2 order2
          (snd (updateAllListCounts this1 now1 win1 net1 order1 w1)) =
        updateAllListCounts this1 now1 win1 net1 order1 w1" for win
  proof
    assume h: "\<not> now1 - lastUpdateTime this1 < updateCooldown this1 \<and>
      aside (liveDocument win1) \<noteq> None \<and>
      findAllListLinks (liveDocument win1) (textContent w1) \<noteq> [] \<and>
      now2 - now1 < updateCooldown this1"
    then have f: "fst (updateAllListCounts this1 now1 win1 net1 order1 w1) = this1\<lparr>lastUpdateTime := now1\<rparr>"
      by (simp add: c)
    from h have "now2 - lastUpdateTime (this1\<lparr>lastUpdateTime := now1\<rparr>) <
                 updateCooldown (this1\<lparr>lastUpdateTime := now1\<rparr>)"
      by simp
    then have "updateAllListCounts (this1\<lparr>lastUpdateTime := now1\<rparr>) now2 win net2 order2
          (snd (updateAllListCounts this1 now1 win1 net1 order1 w1)) =
        (this1\<lparr>lastUpdateTime := now1\<rparr>, snd (updateAllListCounts this1 now1 win1 net1 order1 w1))"
      by (simp add: updateAllListCounts_def)
    with f show "updateAllListCounts (fst (updateAllListCounts this1 now1 win1 net1 order1 w1)) now2 win net2 order2
          (snd (updateAllListCounts this1 now1 win1 net1 order1 w1)) =
        updateAllListCounts this1 now1 win1 net1 order1 w1"
      by (metis prod.collapse)
  qed
  have e: "\<not> now1 - lastUpdateTime this1 < updateCooldown this1 \<and>
    now2 - now1 < updateCooldown this1 \<longrightarrow>
      domWrites (snd (updateAllListCounts
                        (fst (updateAllListCounts this1 now1 win1 net1 order1 w1)) now2 win1 net2 order2
                        (snd (updateAllListCounts this1 now1 win1 net1 order1 w1)))) =
        domWrites (snd (updateAllListCounts this1 now1 win1 net1 order1 w1))"
  proof
    assume h: "\<not> now1 - lastUpdateTime this1 < updateCooldown this1 \<and>
      now2 - now1 < updateCooldown this1"
    show "domWrites (snd (updateAllListCounts
                        (fst (updateAllListCounts this1 now1 win1 net1 order1 w1)) now2 win1 net2 order2
                        (snd (updateAllListCounts this1 now1 win1 net1 order1 w1)))) =
        domWrites (snd (updateAllListCounts this1 now1 win1 net1 order1 w1))"
    proof (cases "findAllListLinks (liveDocument win1) (textContent w1) = []")
      case True
      then have t: "textContent (snd (updateAllListCounts this1 now1 win1 net1 order1 w1)) = textContent w1"
        by (rule not_ready_run_world)
      with True have "findAllListLinks (liveDocument win1)
          (textContent (snd (updateAllListCounts this1 now1 win1 net1 order1 w1))) = []"
        by simp
      then show ?thesis by (rule not_ready_run_world)
    next
      case False
      then have "aside (liveDocument win1) \<noteq> None"
        by (auto simp: findAllListLinks_def split: option.splits)
      with False h d [of win1] show ?thesis by simp
    qed
  qed
  from p q r a b c d [of win2] e show ?thesis by blast
qed

text \<open>
  A run 2 seconds after the last one is suppressed and one 10 seconds after it is not; the
  first run at a present-day clock reading is not suppressed, and a run 2 seconds after it
  is.
\<close>

theorem cooldown_gate_witness:
  "1700000002000 - lastUpdateTime (constructor\<lparr>lastUpdateTime := 1700000000000\<rparr>)
     < updateCooldown (constructor\<lparr>lastUpdateTime := 1700000000000\<rparr>) \<and>
   updateAllListCounts (constructor\<lparr>lastUpdateTime := 1700000000000\<rparr>) 1700000002000
       examplePage exampleNetwork [0, 1, 2] exampleWorld =
     (constructor\<lparr>lastUpdateTime := 1700000000000\<rparr>, exampleWorld) \<and>
   updateAllListCounts (constructor\<lparr>lastUpdateTime := 1700000000000\<rparr>) 1700000010000
       examplePage exampleNetwork [0, 1, 2] exampleWorld \<noteq>
     (constructor\<lparr>lastUpdateTime := 1700000000000\<rparr>, exampleWorld) \<and>
   (10000 :: int) \<le> 1700000000000 \<and>
   updateAllListCounts constructor 1700000000000 examplePage exampleNetwork [0, 1, 2] exampleWorld \<noteq>
     (constructor, exampleWorld) \<and>
   sidebarQueries exampleWorld <
     sidebarQueries (snd (updateAllListCounts constructor 1700000000000 examplePage exampleNetwork
                            [0, 1, 2] exampleWorld)) \<and>
   fst (updateAllListCounts constructor 1700000000000 examplePage exampleNetwork [0, 1, 2] exampleWorld) =
     constructor\<lparr>lastUpdateTime := 1700000000000\<rparr> \<and>
   updateAllListCounts
       (fst (updateAllListCounts constructor 1700000000000 examplePage exampleNetwork [0, 1, 2] exampleWorld))
       1700000002000 examplePage exampleNetwork [0, 1, 2]
       (snd (updateAllListCounts constructor 1700000000000 examplePage exampleNetwork [0, 1, 2] exampleWorld)) =
     updateAllListCounts constructor 1700000000000 examplePage exampleNetwork [0, 1, 2] exampleWorld \<and>
   domWrites (snd (updateAllListCounts
       (fst (updateAllListCounts constructor 1700000000000 examplePage exampleNetwork [0, 1, 2] exampleWorld))
       1700000002000 examplePage exampleNetwork [0, 1, 2]
       (snd (updateAllListCounts constructor 1700000000000 examplePage exampleNetwork [0, 1, 2] exampleWorld)))) =
     domWrites (snd (updateAllListCounts constructor 1700000000000 examplePage exampleNetwork
                       [0, 1, 2] exampleWorld))"
proof -
  have h1: "1700000002000 - lastUpdateTime (constructor\<lparr>lastUpdateTime := 1700000000000\<rparr>)
     < updateCooldown (constructor\<lparr>lastUpdateTime := 1700000000000\<rparr>)"
    by (simp add: constructor_def)
  have h1': "\<not> 1700000010000 - lastUpdateTime (constructor\<lparr>lastUpdateTime := 1700000000000\<rparr>)
     < updateCooldown (constructor\<lparr>lastUpdateTime := 1700000000000\<rparr>)"
    by (simp add: constructor_def)
  have h2: "(10000 :: int) \<le> 1700000000000"
    by simp
  have h3: "\<not> 1700000000000 - lastUpdateTime constructor < updateCooldown constructor"
    by (simp add: constructor_def)
  have h4: "aside (liveDocument examplePage) \<noteq> None"
    by (simp add: examplePage_def)
  have h5: "findAllListLinks (liveDocument examplePage) (textContent exampleWorld) \<noteq> []"
    by (simp add: example_scan)
  have h6: "(1700000002000 :: int) - 1700000000000 < updateCooldown constructor"
    by (simp add: constructor_def)
  note g = cooldown_gate [where this = "constructor\<lparr>lastUpdateTime := 1700000000000\<rparr>"
         and now = 1700000002000 and win = examplePage and net = exampleNetwork
         and order = "[0, 1, 2]" and w = exampleWorld
         and ?now0.0 = 1700000000000 and ?w0.0 = exampleWorld and ?win0.0 = examplePage
         and ?net0.0 = exampleNetwork and ?order0.0 = "[0, 1, 2]"
         and ?this1.0 = constructor and ?now1.0 = 1700000000000 and ?win1.0 = examplePage
         and ?net1.0 = exampleNetwork and ?order1.0 = "[0, 1, 2]" and ?w1.0 = exampleWorld
         and ?now2.0 = 1700000002000 and ?win2.0 = examplePage and ?net2.0 = exampleNetwork
         and ?order2.0 = "[0, 1, 2]"]
  note g' = cooldown_gate [where this = "constructor\<lparr>lastUpdateTime := 1700000000000\<rparr>"
         and now = 1700000010000 and win = examplePage and net = exampleNetwork
         and order = "[0, 1, 2]" and w = exampleWorld]
  from g h1 have A: "updateAllListCounts (constructor\<lparr>lastUpdateTime := 1700000000000\<rparr>) 1700000002000
       examplePage exampleNetwork [0, 1, 2] exampleWorld =
     (constructor\<lparr>lastUpdateTime := 1700000000000\<rparr>, exampleWorld)"
    by blast
  from g' h1' have A': "updateAllListCounts (constructor\<lparr>lastUpdateTime := 1700000000000\<rparr>) 1700000010000
       examplePage exampleNetwork [0, 1, 2] exampleWorld \<noteq>
     (constructor\<lparr>lastUpdateTime := 1700000000000\<rparr>, exampleWorld)"
    by blast
  from g h2 have B: "updateAllListCounts constructor 1700000000000 examplePage exampleNetwork [0, 1, 2]
        exampleWorld \<noteq> (constructor, exampleWorld) \<and>
     sidebarQueries exampleWorld <
     sidebarQueries (snd (updateAllListCounts constructor 1700000000000 examplePage exampleNetwork
                            [0, 1, 2] exampleWorld))"
    by blast
  from g have "fst (updateAllListCounts constructor 1700000000000 examplePage exampleNetwork [0, 1, 2] exampleWorld) =
     (if \<not> 1700000000000 - lastUpdateTime constructor < updateCooldown constructor \<and>
         aside (liveDocument examplePage) \<noteq> None \<and>
         findAllListLinks (liveDocument examplePage) (textContent exampleWorld) \<noteq> []
      then constructor\<lparr>lastUpdateTime := 1700000000000\<rparr> else constructor)"
    by blast
  with h3 h4 h5 have C: "fst (updateAllListCounts constructor 1700000000000 examplePage exampleNetwork
       [0, 1, 2] exampleWorld) = constructor\<lparr>lastUpdateTime := 1700000000000\<rparr>"
    by presburger
  from g h3 h4 h5 h6 have D: "updateAllListCounts
       (fst (updateAllListCounts constructor 1700000000000 examplePage exampleNetwork [0, 1, 2] exampleWorld))
       1700000002000 examplePage exampleNetwork [0, 1, 2]
       (snd (updateAllListCounts constructor 1700000000000 examplePage exampleNetwork [0, 1, 2] exampleWorld)) =
     updateAllListCounts constructor 1700000000000 examplePage exampleNetwork [0, 1, 2] exampleWorld"
    by blast
  from g h3 h6 have E: "domWrites (snd (updateAllListCounts
       (fst (updateAllListCounts constructor 1700000000000 examplePage exampleNetwork [0, 1, 2] exampleWorld))
       1700000002000 examplePage exampleNetwork [0, 1, 2]
       (snd (updateAllListCounts constructor 1700000000000 examplePage exampleNetwork [0, 1, 2] exampleWorld)))) =
     domWrites (snd (updateAllListCounts constructor 1700000000000 examplePage exampleNetwork
                       [0, 1, 2] exampleWorld))"
    by blast
  from h1 A A' h2 B C D E show ?thesis by blast
qed

text \<open>No run touches \<open>listCounts\<close>.\<close>

lemma runs_listCounts: "listCounts (fst (runs this w ts)) = listCounts this"
proof (induction ts arbitrary: this w)
  case Nil
  then show ?case by simp
next
  case (Cons t ts)
  have "listCounts (fst (updateAllListCounts this (firedAt t) (seenWindow t) (seenNetwork t)
           (settleOrder t) w)) = listCounts this"
    by (simp add: updateAllListCounts_counter)
  with Cons show ?case
    by (simp add: split_beta)
qed

text \<open>
  Claim C10. The map \<open>listCounts\<close> is never written: a run leaves it as it was. It is
  never read: a run on a counter with any other map \<open>m\<close> in its place does the same to
  the world and to the other fields. The constructor makes it empty, and it is empty after
  any sequence of runs.
\<close>

theorem listCounts_never_used:
  "listCounts (fst (updateAllListCounts this now win net order w)) = listCounts this \<and>
   updateAllListCounts (this\<lparr>listCounts := m\<rparr>) now win net order w =
     ((fst (updateAllListCounts this now win net order w))\<lparr>listCounts := m\<rparr>,
      snd (updateAllListCounts this now win net order w)) \<and>
   listCounts constructor = Map.empty \<and>
   listCounts (fst (runs constructor w ts)) = Map.empty"
proof -
  have a: "listCounts (fst (updateAllListCounts this now win net order w)) = listCounts this"
    by (simp add: updateAllListCounts_counter)
  have b: "updateAllListCounts (this\<lparr>listCounts := m\<rparr>) now win net order w =
     ((fst (updateAllListCounts this now win net order w))\<lparr>listCounts := m\<rparr>,
      snd (updateAllListCounts this now win net order w))"
    by (simp add: prod_eq_iff updateAllListCounts_counter updateAllListCounts_world)
  have c: "listCounts constructor = Map.empty"
    by (simp add: constructor_def)
  have d: "listCounts (fst (runs constructor w ts)) = Map.empty"
    by (simp add: runs_listCounts c)
  from a b c d show ?thesis by blast
qed

section \<open>Fetching and the two counting paths\<close>

text \<open>
  What \<open>fetchListBookmarkCount\<close> does on a failure: it returns \<open>null\<close>, except that it
  never returns when the response came in time with a success status and its body stalls.
\<close>

lemma fetch_failure_outcome:
  assumes "fetchFailed (net (''/dashboard/lists/'' @ lid))"
  shows "fst (fetchListBookmarkCount net lid w) = Returns None \<or>
         fst (fetchListBookmarkCount net lid w) = Pending \<and>
         (\<exists>t r. net (''/dashboard/lists/'' @ lid) = Responds t r \<and> t < 5000 \<and> ok r \<and>
                responseBody r = BodyStalls)"
  using assms
  by (auto simp: fetchListBookmarkCount_result fetchFailed_def split: exchange.splits body.splits)

lemma example_not_current:
  "at_index (split (pathname examplePage) ''/lists/'') 1 \<noteq> Some (listId laterInfo)"
  by code_simp

text \<open>
  Claim C7. The claim holds of the wait for the response and fails of the body. The first
  conjunct is all that \<open>fetchListBookmarkCount\<close> can end with: a response that arrives
  before 5000 ms with a success status gives the count of its document, \<open>null\<close> if
  reading the body fails; every other answer, a response at 5000 ms or later, a failed or
  unanswered request, a status that is not a success, gives \<open>null\<close>; an exception never
  leaves the function; and \<open>updateListCount\<close>, resumed with \<open>null\<close>, leaves the world as
  it is. But the timer is cleared when the response arrives, before its body is read: on
  \<open>stalledNetwork\<close>, where the body never arrives, which is a time-out, the function never
  returns, and \<open>updateListCount\<close> stays suspended for ever.
\<close>

theorem stalled_body_is_never_timed_out:
  "fst (fetchListBookmarkCount net lid w) =
     (case net (''/dashboard/lists/'' @ lid) of
        Responds t r \<Rightarrow>
          if t < 5000 \<and> ok r
          then (case responseBody r of
                  BodyArrives doc \<Rightarrow> Returns (Some (countBookmarksInDocument doc))
                | BodyFails \<Rightarrow> Returns None
                | BodyStalls \<Rightarrow> Pending)
          else Returns None
      | Fails t \<Rightarrow> Returns None
      | Unanswered \<Rightarrow> Returns None) \<and>
   fst (fetchListBookmarkCount net lid w) \<noteq> Throws e \<and>
   snd (fetchListBookmarkCount net lid w) = w\<lparr>requests := requests w @ [''/dashboard/lists/'' @ lid]\<rparr> \<and>
   updateListCount_resume L (Returns None) w = (Fulfilled, w) \<and>
   updateListCount_resume L Pending w = (Unsettled, w) \<and>
   fetchFailed (stalledNetwork (''/dashboard/lists/'' @ listId laterInfo)) \<and>
   fst (fetchListBookmarkCount stalledNetwork (listId laterInfo) exampleWorld) = Pending \<and>
   updateListCount examplePage stalledNetwork laterInfo exampleWorld =
     (Unsettled,
      exampleWorld\<lparr>requests := requests exampleWorld @ [''/dashboard/lists/'' @ listId laterInfo]\<rparr>)"
proof -
  have a: "fst (fetchListBookmarkCount net lid w) =
     (case net (''/dashboard/lists/'' @ lid) of
        Responds t r \<Rightarrow>
          if t < 5000 \<and> ok r
          then (case responseBody r of
                  BodyArrives doc \<Rightarrow> Returns (Some (countBookmarksInDocument doc))
                | BodyFails \<Rightarrow> Returns None
                | BodyStalls \<Rightarrow> Pending)
          else Returns None
      | Fails t \<Rightarrow> Returns None
      | Unanswered \<Rightarrow> Returns None)"
    by (rule fetchListBookmarkCount_result)
  have b: "fst (fetchListBookmarkCount net lid w) \<noteq> Throws e"
    by (simp add: fetchListBookmarkCount_result split: exchange.splits body.splits)
  have c: "snd (fetchListBookmarkCount net lid w) =
      w\<lparr>requests := requests w @ [''/dashboard/lists/'' @ lid]\<rparr>"
    by (rule fetchListBookmarkCount_world)
  have d: "updateListCount_resume L (Returns None) w = (Fulfilled, w)"
    and e: "updateListCount_resume L Pending w = (Unsettled, w)"
    by (simp_all add: updateListCount_resume_def)
  have f: "fetchFailed (stalledNetwork (''/dashboard/lists/'' @ listId laterInfo))"
    by (simp add: fetchFailed_def stalledNetwork_def laterInfo_def)
  have g: "fst (fetchListBookmarkCount stalledNetwork (listId laterInfo) exampleWorld) = Pending"
    by (simp add: fetchListBookmarkCount_result stalledNetwork_def laterInfo_def ok_def)
  have h: "updateListCount examplePage stalledNetwork laterInfo exampleWorld =
     (Unsettled,
      exampleWorld\<lparr>requests := requests exampleWorld @ [''/dashboard/lists/'' @ listId laterInfo]\<rparr>)"
    using example_not_current g
      fetchListBookmarkCount_world [of stalledNetwork "listId laterInfo" exampleWorld]
    by (simp add: updateListCount_def getUnarchivedCountForList_def Let_def split_beta
        updateListCount_resume_def)
  from a b c d e f g h show ?thesis by blast
qed

text \<open>
  Claim C6, as amended. The count of a list is taken from the live page exactly when the
  list id is the one read from the path, with no request sent; otherwise the list's page is
  requested and, if it arrives in time with a success status, counted as a detached
  document. On a page with a main region the live count is the document count of the
  cards whose computed opacity is not below 1 and whose computed display is not
  \<open>none\<close>. On a page without a main region the live count is \<open>null\<close> and the document
  count is 0.
\<close>

theorem count_resolution_paths:
  "getUnarchivedCountForList win net lid w =
     (if at_index (split (pathname win) ''/lists/'') 1 = Some lid
      then (Returns (countVisibleBookmarks win), w)
      else (case net (''/dashboard/lists/'' @ lid) of
              Responds t r \<Rightarrow>
                if t < 5000 \<and> ok r
                then (case responseBody r of
                        BodyArrives doc \<Rightarrow> Returns (Some (countBookmarksInDocument doc))
                      | BodyFails \<Rightarrow> Returns None
                      | BodyStalls \<Rightarrow> Pending)
                else Returns None
            | Fails t \<Rightarrow> Returns None
            | Unanswered \<Rightarrow> Returns None,
            w\<lparr>requests := requests w @ [''/dashboard/lists/'' @ lid]\<rparr>)) \<and>
   countVisibleBookmarks \<lparr>liveDocument = \<lparr>main = Some cs, aside = sb\<rparr>, pathname = p\<rparr> =
     Some (countBookmarksInDocument
             \<lparr>main = Some (filter (\<lambda>c. \<not> (opacity c < 1 \<or> display c = ''none'')) cs),
              aside = sb\<rparr>) \<and>
   countVisibleBookmarks \<lparr>liveDocument = \<lparr>main = None, aside = sb\<rparr>, pathname = p\<rparr> = None \<and>
   countBookmarksInDocument \<lparr>main = None, aside = sb\<rparr> = 0"
proof -
  have a: "getUnarchivedCountForList win net lid w =
     (if at_index (split (pathname win) ''/lists/'') 1 = Some lid
      then (Returns (countVisibleBookmarks win), w)
      else (case net (''/dashboard/lists/'' @ lid) of
              Responds t r \<Rightarrow>
                if t < 5000 \<and> ok r
                then (case responseBody r of
                        BodyArrives doc \<Rightarrow> Returns (Some (countBookmarksInDocument doc))
                      | BodyFails \<Rightarrow> Returns None
                      | BodyStalls \<Rightarrow> Pending)
                else Returns None
            | Fails t \<Rightarrow> Returns None
            | Unanswered \<Rightarrow> Returns None,
            w\<lparr>requests := requests w @ [''/dashboard/lists/'' @ lid]\<rparr>))"
    using fetchListBookmarkCount_world [of net lid w] fetchListBookmarkCount_result [of net lid w]
    by (simp add: getUnarchivedCountForList_def Let_def prod_eq_iff)
  have c: "countVisibleBookmarks \<lparr>liveDocument = \<lparr>main = Some cs, aside = sb\<rparr>, pathname = p\<rparr> =
     Some (countBookmarksInDocument
             \<lparr>main = Some (filter (\<lambda>c. \<not> (opacity c < 1 \<or> display c = ''none'')) cs),
              aside = sb\<rparr>)"
    by (simp only: countBookmarksInDocument_sum countVisibleBookmarks_sum sum_visibleCard_filter)
  have d: "countVisibleBookmarks \<lparr>liveDocument = \<lparr>main = None, aside = sb\<rparr>, pathname = p\<rparr> = None"
    by (simp add: countVisibleBookmarks_def)
  have e: "countBookmarksInDocument \<lparr>main = None, aside = sb\<rparr> = 0"
    by (simp add: countBookmarksInDocument_def)
  from a c d e show ?thesis by blast
qed

text \<open>
  The claim as stated, that the two paths differ in the style signals only, fails on a
  page without a main region, where no card has any style at all.
\<close>

theorem counting_paths_differ_counterexample:
  "countVisibleBookmarks
     \<lparr>liveDocument = \<lparr>main = None, aside = Some []\<rparr>, pathname = ''/dashboard/lists/abc123''\<rparr>
   \<noteq> Some (countBookmarksInDocument \<lparr>main = None, aside = Some []\<rparr>)"
  by (simp add: countVisibleBookmarks_def)

section \<open>The scan of the sidebar\<close>

text \<open>Facts on \<open>split\<close> and \<open>parseInt\<close> for the scan of the sidebar.\<close>

lemma startsWith_take: "startsWith s p \<longleftrightarrow> take (length p) s = p"
  by (induction s p rule: startsWith.induct) auto

lemma split_from_no_occurrence:
  assumes "\<not> str_includes s sep"
  shows "split_from sep acc s = [rev acc @ s]"
  using assms by (induction s arbitrary: acc) auto

lemma split_from_first_occurrence:
  assumes "sep \<noteq> []" and "\<not> str_includes (P @ butlast sep) sep"
  shows "split_from sep acc (P @ sep @ R) = (rev acc @ P) # split_from sep [] R"
  using assms(2)
proof (induction P arbitrary: acc)
  case Nil
  from assms(1) obtain x xs where sep: "sep = x # xs" by (cases sep) auto
  have "startsWith (x # xs @ R) (x # xs)" by (simp add: startsWith_iff)
  then show ?case by (simp add: sep)
next
  case (Cons c P)
  have len: "length sep \<le> length (c # P @ butlast sep)" by simp
  from Cons.prems have ns: "\<not> startsWith (c # P @ butlast sep) sep"
    and ni: "\<not> str_includes (P @ butlast sep) sep"
    by simp_all
  have "c # P @ sep @ R = (c # P @ butlast sep) @ (last sep # R)"
    using assms(1) by simp
  then have "take (length sep) (c # P @ sep @ R) = take (length sep) (c # P @ butlast sep)"
    using len by (metis append_Nil2 diff_is_0_eq take_0 take_append)
  with ns have "\<not> startsWith (c # P @ sep @ R) sep"
    by (simp add: startsWith_take)
  with Cons.IH [OF ni] show ?case by simp
qed

lemma listId_after_lists:
  assumes "\<not> str_includes (P @ ''/lists'') ''/lists/''" and "\<not> str_includes lid ''/lists/''"
  shows "at_index (split (P @ ''/lists/'' @ lid) ''/lists/'') 1 = Some lid"
proof -
  have "split_from ''/lists/'' [] (P @ ''/lists/'' @ lid) = P # split_from ''/lists/'' [] lid"
    using split_from_first_occurrence [of "''/lists/''" P "[]" lid] assms(1) by simp
  with assms(2) show ?thesis
    by (simp add: split_def at_index_def split_from_no_occurrence)
qed

lemma no_slash_no_lists:
  assumes "CHR ''/'' \<notin> set lid"
  shows "\<not> str_includes lid ''/lists/''"
proof
  assume "str_includes lid ''/lists/''"
  then obtain a b where "lid = a @ ''/lists/'' @ b" by (auto simp: str_includes_iff)
  then have "CHR ''/'' \<in> set lid" by simp
  with assms show False by simp
qed

lemma trailingPathSegment_append:
  assumes "CHR ''/'' \<notin> set lid"
  shows "trailingPathSegment (P @ ''/lists/'' @ lid) = lid"
proof -
  have "takeWhile (\<lambda>c. c \<noteq> CHR ''/'') (rev lid @ rev (P @ ''/lists/'')) = rev lid"
    using assms by (subst takeWhile_append2) (auto simp: takeWhile_eq_all_conv)
  then show ?thesis by (simp add: trailingPathSegment_def)
qed

lemma parseInt_non_numeric:
  assumes "\<not> isWhiteSpace c" and "c \<notin> {CHR ''+'', CHR ''-''}"
    and "c \<notin> set ''0123456789''"
  shows "parseInt (c # cs) = None"
proof -
  have "digitValue c = None \<or> (\<exists>d. digitValue c = Some d \<and> 10 \<le> d)"
    using assms(3)
    apply (simp add: digitValue_def Let_def char_eq_code [of c] del: of_char_eq_iff)
    by presburger
  then have "radixDigits 10 (c # cs) = []" by auto
  with assms show ?thesis
    by (simp add: parseInt_def Let_def)
qed

lemma badgeQuery_Some: "badgeQuery item = Some b \<longleftrightarrow> item = Li (Some b)"
  by (cases item) auto

lemma listLinkOf_Some_iff:
  "listLinkOf txt a = Some L \<longleftrightarrow>
     (\<exists>lid badge. at_index (split (href a) ''/lists/'') 1 = Some lid \<and> lid \<noteq> [] \<and>
        closest_li a = Some (Li (Some badge)) \<and>
        L = \<lparr>listId = lid, name = trim (linkText a), link = a, countBadge = badge,
             currentCount = or_zero (parseInt (trim (txt badge)))\<rparr>)"
  by (cases "closest_li a"; cases "at_index (split (href a) ''/lists/'') 1")
     (auto simp: listLinkOf_def Let_def badgeQuery_Some split: option.splits)

lemma listLinkOf_link:
  assumes "listLinkOf txt a = Some L"
  shows "link L = a"
  using assms by (auto simp: listLinkOf_Some_iff)

lemma map_link_map_filter:
  "map link (List.map_filter (listLinkOf txt) links) = filter (\<lambda>a. listLinkOf txt a \<noteq> None) links"
proof (induction links)
  case Nil
  then show ?case by (simp add: List.map_filter_simps)
next
  case (Cons a links)
  show ?case
  proof (cases "listLinkOf txt a")
    case None
    with Cons show ?thesis by (simp add: List.map_filter_simps)
  next
    case (Some L)
    with Cons listLinkOf_link [OF Some] show ?thesis by (simp add: List.map_filter_simps)
  qed
qed

text \<open>
  Claim C9, as amended. Without a sidebar the scan is empty. Otherwise it yields, in the
  order of the sidebar, one descriptor for each link that has a non-empty list id and a
  badge, and skips the others. The list id is the second piece of the href split at
  \<open>/lists/\<close>: the text after the first \<open>/lists/\<close>, up to the next \<open>/lists/\<close> if there is
  one; it is the trailing path segment of the href when that text contains no \<open>/\<close>. The
  name is the link's trimmed text, the badge is the one found under the enclosing \<open>li\<close>,
  and the displayed count is what \<open>parseInt\<close> reads from the badge's trimmed text, 0 when
  the text is empty or starts with a character that is neither a sign nor a digit.
\<close>

theorem sidebar_scan:
  "findAllListLinks \<lparr>main = m, aside = None\<rparr> texts = [] \<and>
   map link (findAllListLinks \<lparr>main = m, aside = Some links\<rparr> texts) =
     filter (\<lambda>a. listLinkOf texts a \<noteq> None) links \<and>
   (listLinkOf texts a \<noteq> None \<longleftrightarrow>
      (\<exists>lid badge. at_index (split (href a) ''/lists/'') 1 = Some lid \<and> lid \<noteq> [] \<and>
         closest_li a = Some (Li (Some badge)))) \<and>
   (\<forall>L \<in> set (findAllListLinks doc texts).
      at_index (split (href (link L)) ''/lists/'') 1 = Some (listId L) \<and>
      listId L \<noteq> [] \<and>
      name L = trim (linkText (link L)) \<and>
      closest_li (link L) = Some (Li (Some (countBadge L))) \<and>
      currentCount L = or_zero (parseInt (trim (texts (countBadge L))))) \<and>
   (\<not> str_includes (P @ ''/lists'') ''/lists/'' \<and> \<not> str_includes lid ''/lists/'' \<longrightarrow>
      at_index (split (P @ ''/lists/'' @ lid) ''/lists/'') 1 = Some lid) \<and>
   (\<not> str_includes (P @ ''/lists'') ''/lists/'' \<and> \<not> str_includes (lid @ ''/lists'') ''/lists/'' \<longrightarrow>
      at_index (split (P @ ''/lists/'' @ lid @ ''/lists/'' @ R) ''/lists/'') 1 = Some lid) \<and>
   (\<not> str_includes (P @ ''/lists'') ''/lists/'' \<and> CHR ''/'' \<notin> set seg \<longrightarrow>
      at_index (split (P @ ''/lists/'' @ seg) ''/lists/'') 1 = Some seg \<and>
      trailingPathSegment (P @ ''/lists/'' @ seg) = seg) \<and>
   or_zero (parseInt []) = 0 \<and>
   (\<not> isWhiteSpace c \<and> c \<notin> {CHR ''+'', CHR ''-''} \<and> c \<notin> set ''0123456789'' \<longrightarrow>
      or_zero (parseInt (c # cs)) = 0)"
proof -
  have a: "findAllListLinks \<lparr>main = m, aside = None\<rparr> texts = []"
    by (simp add: findAllListLinks_def)
  have b: "map link (findAllListLinks \<lparr>main = m, aside = Some links\<rparr> texts) =
     filter (\<lambda>a. listLinkOf texts a \<noteq> None) links"
    by (simp add: findAllListLinks_def map_link_map_filter)
  have c: "listLinkOf texts a \<noteq> None \<longleftrightarrow>
      (\<exists>lid badge. at_index (split (href a) ''/lists/'') 1 = Some lid \<and> lid \<noteq> [] \<and>
         closest_li a = Some (Li (Some badge)))"
  proof -
    have "listLinkOf texts a \<noteq> None \<longleftrightarrow> (\<exists>L. listLinkOf texts a = Some L)" by auto
    then show ?thesis unfolding listLinkOf_Some_iff by blast
  qed
  have d: "\<forall>L \<in> set (findAllListLinks doc texts).
      at_index (split (href (link L)) ''/lists/'') 1 = Some (listId L) \<and>
      listId L \<noteq> [] \<and>
      name L = trim (linkText (link L)) \<and>
      closest_li (link L) = Some (Li (Some (countBadge L))) \<and>
      currentCount L = or_zero (parseInt (trim (texts (countBadge L))))"
  proof
    fix L
    assume "L \<in> set (findAllListLinks doc texts)"
    then obtain x where "listLinkOf texts x = Some L"
      by (auto simp: findAllListLinks_def List.map_filter_def split: option.splits)
    then show "at_index (split (href (link L)) ''/lists/'') 1 = Some (listId L) \<and>
      listId L \<noteq> [] \<and>
      name L = trim (linkText (link L)) \<and>
      closest_li (link L) = Some (Li (Some (countBadge L))) \<and>
      currentCount L = or_zero (parseInt (trim (texts (countBadge L))))"
      by (auto simp: listLinkOf_Some_iff)
  qed
  have e: "\<not> str_includes (P @ ''/lists'') ''/lists/'' \<and> \<not> str_includes lid ''/lists/'' \<longrightarrow>
      at_index (split (P @ ''/lists/'' @ lid) ''/lists/'') 1 = Some lid"
    using listId_after_lists by blast
  have f: "\<not> str_includes (P @ ''/lists'') ''/lists/'' \<and> \<not> str_includes (lid @ ''/lists'') ''/lists/'' \<longrightarrow>
      at_index (split (P @ ''/lists/'' @ lid @ ''/lists/'' @ R) ''/lists/'') 1 = Some lid"
  proof
    assume h: "\<not> str_includes (P @ ''/lists'') ''/lists/'' \<and> \<not> str_includes (lid @ ''/lists'') ''/lists/''"
    have "split_from ''/lists/'' [] (P @ ''/lists/'' @ lid @ ''/lists/'' @ R) =
          P # split_from ''/lists/'' [] (lid @ ''/lists/'' @ R)"
      using split_from_first_occurrence [of "''/lists/''" P "[]" "lid @ ''/lists/'' @ R"] h by simp
    moreover have "split_from ''/lists/'' [] (lid @ ''/lists/'' @ R) = lid # split_from ''/lists/'' [] R"
      using split_from_first_occurrence [of "''/lists/''" lid "[]" R] h by simp
    ultimately show "at_index (split (P @ ''/lists/'' @ lid @ ''/lists/'' @ R) ''/lists/'') 1 = Some lid"
      by (simp add: split_def at_index_def)
  qed
  have g: "\<not> str_includes (P @ ''/lists'') ''/lists/'' \<and> CHR ''/'' \<notin> set seg \<longrightarrow>
      at_index (split (P @ ''/lists/'' @ seg) ''/lists/'') 1 = Some seg \<and>
      trailingPathSegment (P @ ''/lists/'' @ seg) = seg"
    using listId_after_lists no_slash_no_lists trailingPathSegment_append by blast
  have h: "or_zero (parseInt []) = 0"
    by (simp add: parseInt_def or_zero_def)
  have i: "\<not> isWhiteSpace c \<and> c \<notin> {CHR ''+'', CHR ''-''} \<and> c \<notin> set ''0123456789'' \<longrightarrow>
      or_zero (parseInt (c # cs)) = 0"
    by (simp add: parseInt_non_numeric or_zero_def)
  from a b c d e f g h i show ?thesis by blast
qed

text \<open>The example sidebar, the href \<open>/dashboard/lists/abc123\<close> and the badge text \<open>n/a\<close>.\<close>

theorem sidebar_scan_witness:
  "readingInfo \<in> set (findAllListLinks (liveDocument examplePage) (textContent exampleWorld)) \<and>
   at_index (split (href (link readingInfo)) ''/lists/'') 1 = Some (listId readingInfo) \<and>
   name readingInfo = trim (linkText (link readingInfo)) \<and>
   currentCount readingInfo = or_zero (parseInt (trim (textContent exampleWorld (countBadge readingInfo)))) \<and>
   \<not> str_includes (''/dashboard'' @ ''/lists'') ''/lists/'' \<and>
   \<not> str_includes ''abc123'' ''/lists/'' \<and>
   \<not> str_includes (''abc123'' @ ''/lists'') ''/lists/'' \<and>
   CHR ''/'' \<notin> set ''abc123'' \<and>
   at_index (split (''/dashboard'' @ ''/lists/'' @ ''abc123'') ''/lists/'') 1 = Some ''abc123'' \<and>
   at_index (split (''/dashboard'' @ ''/lists/'' @ ''abc123'' @ ''/lists/'' @ ''x'') ''/lists/'') 1 =
     Some ''abc123'' \<and>
   trailingPathSegment (''/dashboard'' @ ''/lists/'' @ ''abc123'') = ''abc123'' \<and>
   \<not> isWhiteSpace CHR ''n'' \<and> CHR ''n'' \<notin> {CHR ''+'', CHR ''-''} \<and>
   CHR ''n'' \<notin> set ''0123456789'' \<and>
   or_zero (parseInt (CHR ''n'' # ''/a'')) = 0"
proof -
  have h1: "readingInfo \<in> set (findAllListLinks (liveDocument examplePage) (textContent exampleWorld))"
    by (simp add: example_scan)
  have h2: "\<not> str_includes (''/dashboard'' @ ''/lists'') ''/lists/''"
    and h3: "\<not> str_includes ''abc123'' ''/lists/''"
    and h4: "\<not> str_includes (''abc123'' @ ''/lists'') ''/lists/''"
    by simp_all
  have h5: "CHR ''/'' \<notin> set ''abc123''"
    by simp
  have h6: "\<not> isWhiteSpace CHR ''n''" "CHR ''n'' \<notin> {CHR ''+'', CHR ''-''}"
    "CHR ''n'' \<notin> set ''0123456789''"
    by (simp_all add: isWhiteSpace_def)
  note t = sidebar_scan [where doc = "liveDocument examplePage"
      and texts = "textContent exampleWorld" and P = "''/dashboard''" and lid = "''abc123''"
      and seg = "''abc123''" and R = "''x''" and c = "CHR ''n''" and cs = "''/a''"]
  from t h1 have A: "at_index (split (href (link readingInfo)) ''/lists/'') 1 = Some (listId readingInfo) \<and>
      name readingInfo = trim (linkText (link readingInfo)) \<and>
      currentCount readingInfo = or_zero (parseInt (trim (textContent exampleWorld (countBadge readingInfo))))"
    by blast
  from t h2 h3 have B: "at_index (split (''/dashboard'' @ ''/lists/'' @ ''abc123'') ''/lists/'') 1 = Some ''abc123''"
    by blast
  from t h2 h4 have C: "at_index (split (''/dashboard'' @ ''/lists/'' @ ''abc123'' @ ''/lists/'' @ ''x'') ''/lists/'') 1 =
     Some ''abc123''"
    by blast
  from t h2 h5 have D: "trailingPathSegment (''/dashboard'' @ ''/lists/'' @ ''abc123'') = ''abc123''"
    by blast
  from t h6 have E: "or_zero (parseInt (CHR ''n'' # ''/a'')) = 0"
    by blast
  from h1 h2 h3 h4 h5 h6 A B C D E show ?thesis by blast
qed

text \<open>
  The claim as stated, that the list id is the trailing path segment of the href, fails
  for a link to \<open>/dashboard/lists/abc/edit\<close>.
\<close>

theorem listId_not_trailing_segment_counterexample:
  "map listId
     (findAllListLinks
        \<lparr>main = None,
         aside = Some [\<lparr>href = ''/dashboard/lists/abc/edit'', linkText = ''Edit'',
                        closest_li = Some (Li (Some 1))\<rparr>]\<rparr>
        (\<lambda>_. ''3'')) = [''abc/edit''] \<and>
   trailingPathSegment ''/dashboard/lists/abc/edit'' = ''edit''"
  by code_simp

end
